theory Spec2Isabelle
  imports Main "HOL-Library.Sublist"
begin

section \<open>Data model\<close>

text \<open>
  The program is one Python function, \<^verbatim>\<open>ags_to_postgis\<close>, with two helpers. It talks to
  four libraries: pyproj (the EPSG registry and the coordinate transformer), python_ags4
  (the parser), pandas/geopandas (data frames) and SQLAlchemy (the PostGIS store).

  A cell of a data frame is a Python int (the campaign id the program stamps), a float64
  (every numeric AGS column after \<^verbatim>\<open>convert_to_numeric\<close>; NaN is one of its values), a
  string, None, or a point geometry with its EPSG tag. The type \<open>'f\<close> stands for float64:
  nothing is assumed of it but an addition, so no law of real arithmetic is used.
\<close>

datatype 'f cell = IntC int | Num 'f | Text string | Null | Geom 'f 'f int

text \<open>
  A pandas DataFrame: the length of its index and its columns in order, each a label
  with its values. Labels may repeat, as pandas allows. In a frame built by pandas every
  column has \<open>index_len\<close> values.
\<close>

record 'f dataframe =
  index_len :: nat
  cols :: "(string \<times> 'f cell list) list"

definition labels :: "'f dataframe \<Rightarrow> string list" where
  "labels df = map fst (cols df)"

type_synonym 'f row = "(string \<times> 'f cell) list"

text \<open>A table of the store: its column names and its rows. The store maps (schema, name) to tables.\<close>

record 'f stored =
  tcols :: "string list"
  trows :: "'f row list"

type_synonym 'f store = "string \<times> string \<Rightarrow> 'f stored option"

datatype error =
    ValueError string
  | ParseError
  | OperationalError
  | AttributeError
  | TypeError
  | KeyError
  | DatabaseError

text \<open>What the program does to the outside world, in order.\<close>

datatype 'f event =
    FromCrs int int
  | ParseFile string
  | CreateEngine string
  | HasTable string string
  | SelectMax string string
  | ToPostgis string string "'f row list"
  | ToSql string string "'f row list"

text \<open>
  The libraries, taken as parameters:
  \<^item> \<open>epsg_codes\<close>: the list \<^verbatim>\<open>pyproj.database.get_codes("EPSG", PJType("CRS"))\<close>;
  \<^item> \<open>from_crs\<close>: \<^verbatim>\<open>pyproj.Transformer.from_crs(source, target, always_xy=True).transform\<close>;
  \<^item> \<open>AGS4_to_dataframe\<close>: the parser on a file path, None when it raises; the dict of
    tables is given as the list of its items in iteration order;
  \<^item> \<open>convert_to_numeric\<close>: \<^verbatim>\<open>AGS4.convert_to_numeric\<close>, None when it raises;
  \<^item> \<open>connects\<close>: whether the database behind a connection string can be reached;
  \<^item> \<open>accepts\<close>: whether the store accepts the insertion of these rows into this table
    (column and type compatibility, constraints), given the table as it is;
  \<^item> \<open>float64\<close>: the float64 value of a Python int, as numpy converts the int operand of
    \<^verbatim>\<open>point[1] + 10000\<close>;
  \<^item> \<open>float_of_str\<close>: Python's \<^verbatim>\<open>float(s)\<close> on a string, None when it raises ValueError.
\<close>

record 'f env =
  epsg_codes :: "string list"
  from_crs :: "int \<Rightarrow> int \<Rightarrow> 'f \<times> 'f \<Rightarrow> 'f \<times> 'f"
  AGS4_to_dataframe :: "string \<Rightarrow> (string \<times> 'f dataframe) list option"
  convert_to_numeric :: "'f dataframe \<Rightarrow> 'f dataframe option"
  connects :: "string \<Rightarrow> bool"
  accepts :: "string \<times> string \<Rightarrow> 'f stored option \<Rightarrow> 'f row list \<Rightarrow> bool"
  float64 :: "int \<Rightarrow> 'f"
  float_of_str :: "string \<Rightarrow> 'f option"

text \<open>The result of a run: the store afterwards, the events in order, and the exception raised, if any.\<close>

record 'f outcome =
  db_after :: "'f store"
  events :: "'f event list"
  raised :: "error option"

section \<open>Python strings\<close>

text \<open>\<^verbatim>\<open>str\<close> of an int or of None.\<close>

definition digit_char :: "nat \<Rightarrow> char" where
  "digit_char d = ''0123456789'' ! d"

fun str_nat :: "nat \<Rightarrow> string" where
  "str_nat n = (if n < 10 then [digit_char n] else str_nat (n div 10) @ [digit_char (n mod 10)])"

declare str_nat.simps [simp del]

definition str_int :: "int \<Rightarrow> string" where
  "str_int i = (if i < 0 then CHR ''-'' # str_nat (nat (- i)) else str_nat (nat i))"

definition str :: "int option \<Rightarrow> string" where
  "str v = (case v of None \<Rightarrow> ''None'' | Some i \<Rightarrow> str_int i)"

text \<open>\<^verbatim>\<open>str.lower\<close>, on ASCII letters (a \<open>char\<close> is a byte).\<close>

definition lower_char :: "char \<Rightarrow> char" where
  "lower_char c =
     (case map_of (zip ''ABCDEFGHIJKLMNOPQRSTUVWXYZ'' ''abcdefghijklmnopqrstuvwxyz'') c of
        Some l \<Rightarrow> l
      | None \<Rightarrow> c)"

definition lower :: "string \<Rightarrow> string" where
  "lower s = map lower_char s"

section \<open>The helpers\<close>

text \<open>
  \<^verbatim>\<open>_is_epsg(epsg)\<close>: \<^verbatim>\<open>str(epsg) in get_codes(...)\<close>. The caller passes \<^verbatim>\<open>source_epsg\<close>,
  which may be None, so the argument is an optional int.
\<close>

definition is_epsg :: "'f env \<Rightarrow> int option \<Rightarrow> bool" where
  "is_epsg env epsg = (str epsg \<in> set (epsg_codes env))"

text \<open>\<^verbatim>\<open>shapely.ops.transform(func, point)\<close> on a point.\<close>

definition transform :: "('f \<times> 'f \<Rightarrow> 'f \<times> 'f) \<Rightarrow> 'f \<times> 'f \<Rightarrow> 'f \<times> 'f" where
  "transform func point = func point"

text \<open>\<^verbatim>\<open>_transform_point_list\<close>: the loop appends each transformed point to \<^verbatim>\<open>new_points\<close>.\<close>

fun transform_points_loop ::
  "('f \<times> 'f) list \<Rightarrow> ('f \<times> 'f \<Rightarrow> 'f \<times> 'f) \<Rightarrow> ('f \<times> 'f) list \<Rightarrow> ('f \<times> 'f) list" where
  "transform_points_loop [] transformer new_points = new_points"
| "transform_points_loop (point # points) transformer new_points =
     transform_points_loop points transformer (new_points @ [transform transformer point])"

definition transform_point_list ::
  "('f \<times> 'f) list \<Rightarrow> ('f \<times> 'f \<Rightarrow> 'f \<times> 'f) \<Rightarrow> ('f \<times> 'f) list" where
  "transform_point_list points transformer = transform_points_loop points transformer []"

section \<open>Data frame operations\<close>

text \<open>\<^verbatim>\<open>df.columns = [x.lower() for x in df.columns]\<close>\<close>

definition lower_columns :: "'f dataframe \<Rightarrow> 'f dataframe" where
  "lower_columns df = df\<lparr>cols := map (\<lambda>c. (lower (fst c), snd c)) (cols df)\<rparr>"

text \<open>
  \<^verbatim>\<open>df[key] = value\<close> with a scalar: every column with that label is set to the scalar on
  every index entry; when no column has the label, a new last column is added.
\<close>

definition setitem :: "'f dataframe \<Rightarrow> string \<Rightarrow> 'f cell \<Rightarrow> 'f dataframe" where
  "setitem df key v =
     (let column = replicate (index_len df) v in
      if key \<in> set (labels df)
      then df\<lparr>cols := map (\<lambda>c. if fst c = key then (key, column) else c) (cols df)\<rparr>
      else df\<lparr>cols := cols df @ [(key, column)]\<rparr>)"

text \<open>
  \<^verbatim>\<open>df[[k1, k2]]\<close>: KeyError when a label is missing; otherwise the columns labelled
  \<^verbatim>\<open>k1\<close>, then those labelled \<^verbatim>\<open>k2\<close>.
\<close>

definition getitem_list :: "'f dataframe \<Rightarrow> string list \<Rightarrow> error + (string \<times> 'f cell list) list" where
  "getitem_list df keys =
     (if \<forall>k \<in> set keys. k \<in> set (labels df)
      then Inr (concat (map (\<lambda>k. filter (\<lambda>c. fst c = k) (cols df)) keys))
      else Inl KeyError)"

text \<open>\<^verbatim>\<open>np.array(sub)\<close>, iterated: one entry per index entry; the loop reads entries 0 and 1.\<close>

definition np_array :: "nat \<Rightarrow> (string \<times> 'f cell list) list \<Rightarrow> ('f cell \<times> 'f cell) list" where
  "np_array n sub = map (\<lambda>i. (snd (sub ! 0) ! i, snd (sub ! 1) ! i)) [0..<n]"

text \<open>The rows of a frame, as the store receives them.\<close>

definition records :: "'f dataframe \<Rightarrow> 'f row list" where
  "records df = map (\<lambda>i. map (\<lambda>c. (fst c, snd c ! i)) (cols df)) [0..<index_len df]"

section \<open>The store\<close>

text \<open>
  \<^verbatim>\<open>select max(campaign_id) from loca\<close>: the greatest integer of the column, NULL (None)
  when the column holds no integer. NULL cells are skipped, as SQL does.
\<close>

definition campaign_ids :: "'f row list \<Rightarrow> int list" where
  "campaign_ids rows =
     concat (map (\<lambda>r. concat (map (\<lambda>c. case snd c of
                                          IntC n \<Rightarrow> if fst c = ''campaign_id'' then [n] else []
                                        | _ \<Rightarrow> []) r)) rows)"

definition select_max :: "'f stored \<Rightarrow> int option" where
  "select_max t =
     (case campaign_ids (trows t) of [] \<Rightarrow> None | n # ns \<Rightarrow> Some (fold max ns n))"

text \<open>
  The \<^verbatim>\<open>if_exists\<close> argument of \<^verbatim>\<open>to_sql\<close> and \<^verbatim>\<open>to_postgis\<close>, as pandas documents it:
  fail raises when the table exists, replace drops the table before inserting, append
  inserts the new rows into the existing table. A table that does not exist is created.
  A write the store rejects changes nothing.
\<close>

datatype if_exists = Fail | Replace | Append

definition insert_rows ::
  "'f env \<Rightarrow> 'f store \<Rightarrow> string \<times> string \<Rightarrow> string list \<Rightarrow> 'f row list \<Rightarrow> if_exists
     \<Rightarrow> error + 'f store" where
  "insert_rows env db name columns rows mode =
     (case db name of
        None \<Rightarrow>
          if accepts env name None rows
          then Inr (db(name \<mapsto> \<lparr>tcols = columns, trows = rows\<rparr>))
          else Inl DatabaseError
      | Some t \<Rightarrow>
          (case mode of
             Fail \<Rightarrow> Inl (ValueError ''Table already exists.'')
           | Replace \<Rightarrow>
               if accepts env name None rows
               then Inr (db(name \<mapsto> \<lparr>tcols = columns, trows = rows\<rparr>))
               else Inl DatabaseError
           | Append \<Rightarrow>
               if accepts env name (Some t) rows
               then Inr (db(name \<mapsto> t\<lparr>trows := trows t @ rows\<rparr>))
               else Inl DatabaseError))"

definition to_sql ::
  "'f env \<Rightarrow> 'f store \<Rightarrow> 'f dataframe \<Rightarrow> string \<Rightarrow> string \<Rightarrow> if_exists \<Rightarrow> 'f outcome" where
  "to_sql env db df name schema mode =
     (case insert_rows env db (schema, name) (labels df) (records df) mode of
        Inl e \<Rightarrow> \<lparr>db_after = db, events = [], raised = Some e\<rparr>
      | Inr db' \<Rightarrow> \<lparr>db_after = db', events = [ToSql schema name (records df)], raised = None\<rparr>)"

text \<open>
  geopandas, lines 111 and 112. \<^verbatim>\<open>GeoDataFrame(df)\<close> refuses a frame with several columns
  labelled \<^verbatim>\<open>geometry\<close>. \<^verbatim>\<open>set_geometry(points, crs=...)\<close> stores the points, with the
  EPSG code, in the column \<^verbatim>\<open>geometry\<close>: in place of the column of that label when the
  frame has one, as a new last column otherwise. \<^verbatim>\<open>rename_geometry(col)\<close> raises ValueError
  when a column of the new name exists, and renames the geometry column otherwise.
\<close>

definition GeoDataFrame :: "'f dataframe \<Rightarrow> error + 'f dataframe" where
  "GeoDataFrame df =
     (if 1 < length (filter (\<lambda>l. l = ''geometry'') (labels df))
      then Inl (ValueError ''GeoDataFrame does not support multiple columns using the geometry column name'')
      else Inr df)"

definition set_geometry :: "'f dataframe \<Rightarrow> ('f \<times> 'f) list \<Rightarrow> int \<Rightarrow> 'f dataframe" where
  "set_geometry gdf points crs =
     (let column = map (\<lambda>p. Geom (fst p) (snd p) crs) points in
      if ''geometry'' \<in> set (labels gdf)
      then gdf\<lparr>cols := map (\<lambda>c. if fst c = ''geometry'' then (''geometry'', column) else c) (cols gdf)\<rparr>
      else gdf\<lparr>cols := cols gdf @ [(''geometry'', column)]\<rparr>)"

definition rename_geometry :: "'f dataframe \<Rightarrow> string \<Rightarrow> error + 'f dataframe" where
  "rename_geometry gdf col =
     (if col \<in> set (labels gdf)
      then Inl (ValueError (''Column named '' @ col @ '' already exists''))
      else Inr (gdf\<lparr>cols := map (\<lambda>c. if fst c = ''geometry'' then (col, snd c) else c) (cols gdf)\<rparr>))"

text \<open>\<^verbatim>\<open>gdf.to_postgis(name, ..., if_exists=mode, index=False)\<close>\<close>

definition to_postgis ::
  "'f env \<Rightarrow> 'f store \<Rightarrow> 'f dataframe \<Rightarrow> string \<Rightarrow> string \<Rightarrow> if_exists \<Rightarrow> 'f outcome" where
  "to_postgis env db gdf name schema mode =
     (case insert_rows env db (schema, name) (labels gdf) (records gdf) mode of
        Inl e \<Rightarrow> \<lparr>db_after = db, events = [], raised = Some e\<rparr>
      | Inr db' \<Rightarrow> \<lparr>db_after = db', events = [ToPostgis schema name (records gdf)], raised = None\<rparr>)"

section \<open>The import\<close>

text \<open>
  Python's \<^verbatim>\<open>cell + k\<close> for an int \<^verbatim>\<open>k\<close>: a string, None or a geometry raises TypeError
  (the result None here).
\<close>

definition add_int :: "('f::plus) env \<Rightarrow> 'f cell \<Rightarrow> int \<Rightarrow> 'f cell option" where
  "add_int env c k =
     (case c of
        Num y \<Rightarrow> Some (Num (y + float64 env k))
      | IntC j \<Rightarrow> Some (IntC (j + k))
      | _ \<Rightarrow> None)"

text \<open>
  The float a coordinate of a shapely \<^verbatim>\<open>Point\<close> becomes. A number is taken as a float; a
  coordinate that is not a number is converted with \<^verbatim>\<open>float()\<close>, which parses a string
  (ValueError when the string is no number; its message, which goes on to quote the
  string, is cut to its fixed part) and raises TypeError on None or a geometry.
\<close>

definition as_float :: "'f env \<Rightarrow> 'f cell \<Rightarrow> error + 'f" where
  "as_float env c =
     (case c of
        Num x \<Rightarrow> Inr x
      | IntC i \<Rightarrow> Inr (float64 env i)
      | Text s \<Rightarrow>
          (case float_of_str env s of
             Some x \<Rightarrow> Inr x
           | None \<Rightarrow> Inl (ValueError ''could not convert string to float''))
      | Null \<Rightarrow> Inl TypeError
      | Geom x y crs \<Rightarrow> Inl TypeError)"

text \<open>
  \<^verbatim>\<open>Point(point[0], point[1] + 10000)\<close>: the sum is evaluated first, then the point is
  built from the first entry and the sum.
\<close>

definition Point :: "('f::plus) env \<Rightarrow> 'f cell \<times> 'f cell \<Rightarrow> error + 'f \<times> 'f" where
  "Point env point =
     (case add_int env (snd point) 10000 of
        None \<Rightarrow> Inl TypeError
      | Some y' \<Rightarrow>
          (case as_float env (fst point) of
             Inl e \<Rightarrow> Inl e
           | Inr x \<Rightarrow>
               (case as_float env y' of
                  Inl e \<Rightarrow> Inl e
                | Inr y \<Rightarrow> Inr (x, y))))"

text \<open>The loop of lines 104 to 106: \<^verbatim>\<open>points.append(Point(...))\<close> for each entry of the array.\<close>

fun points_loop ::
  "('f::plus) env \<Rightarrow> ('f cell \<times> 'f cell) list \<Rightarrow> ('f \<times> 'f) list \<Rightarrow> error + ('f \<times> 'f) list" where
  "points_loop env [] points = Inr points"
| "points_loop env (point # rest) points =
     (case Point env point of
        Inl e \<Rightarrow> Inl e
      | Inr p \<Rightarrow> points_loop env rest (points @ [p]))"

text \<open>
  Lines 104 to 109: the geometry of the location table. The flag \<^verbatim>\<open>reproject\<close> and the
  variable \<^verbatim>\<open>crs_transformer\<close>, which is bound exactly when the flag is set, are one
  optional transformer.
\<close>

definition geometry ::
  "('f::plus) env \<Rightarrow> ('f \<times> 'f \<Rightarrow> 'f \<times> 'f) option \<Rightarrow> 'f dataframe \<Rightarrow> error + ('f \<times> 'f) list" where
  "geometry env crs_transformer df =
     (case getitem_list df [''loca_locx'', ''loca_locy''] of
        Inl e \<Rightarrow> Inl e
      | Inr sub \<Rightarrow>
          (case points_loop env (np_array (index_len df) sub) [] of
             Inl e \<Rightarrow> Inl e
           | Inr points \<Rightarrow>
               Inr (case crs_transformer of
                      Some transformer \<Rightarrow> transform_point_list points transformer
                    | None \<Rightarrow> points)))"

text \<open>
  Lines 101 and 102: the column labels are lower-cased, then \<^verbatim>\<open>df["campaign_id"] = campaign_id\<close>.
\<close>

definition stamped :: "int \<Rightarrow> 'f dataframe \<Rightarrow> 'f dataframe" where
  "stamped campaign_id df0 = setitem (lower_columns df0) ''campaign_id'' (IntC campaign_id)"

text \<open>Lines 111 and 112: the frame with its geometry column, named \<^verbatim>\<open>geom\<close>.\<close>

definition spatial_frame :: "'f dataframe \<Rightarrow> ('f \<times> 'f) list \<Rightarrow> int \<Rightarrow> error + 'f dataframe" where
  "spatial_frame df points target_epsg =
     (case GeoDataFrame df of
        Inl e \<Rightarrow> Inl e
      | Inr gdf \<Rightarrow> rename_geometry (set_geometry gdf points target_epsg) ''geom'')"

text \<open>Lines 100 to 115: the body of the loop over the tables, for one key.\<close>

definition load_table ::
  "('f::plus) env \<Rightarrow> 'f store \<Rightarrow> string \<Rightarrow> int \<Rightarrow> ('f \<times> 'f \<Rightarrow> 'f \<times> 'f) option \<Rightarrow> int
     \<Rightarrow> string \<Rightarrow> 'f dataframe \<Rightarrow> 'f outcome" where
  "load_table env db schema target_epsg crs_transformer campaign_id key raw =
     (case convert_to_numeric env raw of
        None \<Rightarrow> \<lparr>db_after = db, events = [], raised = Some ParseError\<rparr>
      | Some df0 \<Rightarrow>
          (let df = stamped campaign_id df0 in
           if key = ''LOCA'' then
             (case geometry env crs_transformer df of
                Inl e \<Rightarrow> \<lparr>db_after = db, events = [], raised = Some e\<rparr>
              | Inr points \<Rightarrow>
                  (case spatial_frame df points target_epsg of
                     Inl e \<Rightarrow> \<lparr>db_after = db, events = [], raised = Some e\<rparr>
                   | Inr gdf \<Rightarrow> to_postgis env db gdf (lower key) schema Append))
           else to_sql env db df (lower key) schema Append))"

text \<open>Line 99: the loop. An exception in one iteration ends it; what was written stays.\<close>

fun load_tables ::
  "('f::plus) env \<Rightarrow> 'f store \<Rightarrow> string \<Rightarrow> int \<Rightarrow> ('f \<times> 'f \<Rightarrow> 'f \<times> 'f) option \<Rightarrow> int
     \<Rightarrow> (string \<times> 'f dataframe) list \<Rightarrow> 'f outcome" where
  "load_tables env db schema target_epsg crs_transformer campaign_id [] =
     \<lparr>db_after = db, events = [], raised = None\<rparr>"
| "load_tables env db schema target_epsg crs_transformer campaign_id ((key, raw) # rest) =
     (case raised (load_table env db schema target_epsg crs_transformer campaign_id key raw) of
        Some e \<Rightarrow> load_table env db schema target_epsg crs_transformer campaign_id key raw
      | None \<Rightarrow>
          \<lparr>db_after =
             db_after (load_tables env
               (db_after (load_table env db schema target_epsg crs_transformer campaign_id key raw))
               schema target_epsg crs_transformer campaign_id rest),
           events =
             events (load_table env db schema target_epsg crs_transformer campaign_id key raw) @
             events (load_tables env
               (db_after (load_table env db schema target_epsg crs_transformer campaign_id key raw))
               schema target_epsg crs_transformer campaign_id rest),
           raised =
             raised (load_tables env
               (db_after (load_table env db schema target_epsg crs_transformer campaign_id key raw))
               schema target_epsg crs_transformer campaign_id rest)\<rparr>)"

text \<open>
  Lines 83 to 97: the campaign id from the store. \<^verbatim>\<open>table.columns.campaign_id\<close> raises
  AttributeError when the table has no such column; \<^verbatim>\<open>results[0][0] + 1\<close> raises
  TypeError when the maximum is None.
\<close>

definition next_campaign_id :: "'f store \<Rightarrow> string \<Rightarrow> 'f event list \<times> (error + int)" where
  "next_campaign_id db schema =
     (case db (schema, ''loca'') of
        None \<Rightarrow> ([HasTable schema ''loca''], Inr 1)
      | Some t \<Rightarrow>
          if ''campaign_id'' \<notin> set (tcols t) then ([HasTable schema ''loca''], Inl AttributeError)
          else
            (case select_max t of
               None \<Rightarrow> ([HasTable schema ''loca'', SelectMax schema ''loca''], Inl TypeError)
             | Some m \<Rightarrow> ([HasTable schema ''loca'', SelectMax schema ''loca''], Inr (m + 1))))"

text \<open>
  Lines 69 to 75: the transformer is built only when a source code is given and differs
  from the target code.
\<close>

definition reprojection ::
  "'f env \<Rightarrow> int option \<Rightarrow> int \<Rightarrow> 'f event list \<times> ('f \<times> 'f \<Rightarrow> 'f \<times> 'f) option" where
  "reprojection env source_epsg target_epsg =
     (case source_epsg of
        None \<Rightarrow> ([], None)
      | Some s \<Rightarrow>
          if \<not> s = target_epsg
          then ([FromCrs s target_epsg], Some (from_crs env s target_epsg))
          else ([], None))"

text \<open>Line 79: the connection string.\<close>

definition db_string :: "string \<Rightarrow> string \<Rightarrow> string \<Rightarrow> string \<Rightarrow> string" where
  "db_string username password host db_name =
     ''postgresql://'' @ username @ '':'' @ password @ ''@'' @ host @ ''/'' @ db_name"

text \<open>
  \<^verbatim>\<open>ags_to_postgis\<close>. The store \<open>db\<close> is the database the connection string names. The
  parameter \<^verbatim>\<open>campaign_id\<close> is assigned on both branches of line 84 before it is read, so
  the value the caller passes is never used.
\<close>

definition ags_to_postgis ::
  "('f::plus) env \<Rightarrow> 'f store \<Rightarrow> string \<Rightarrow> string \<Rightarrow> string \<Rightarrow> int \<Rightarrow> string \<Rightarrow> int option
     \<Rightarrow> int option \<Rightarrow> string \<Rightarrow> string \<Rightarrow> 'f outcome" where
  "ags_to_postgis env db filepath username password target_epsg schema source_epsg campaign_id
     db_name host =
     (if \<not> is_epsg env source_epsg \<and> source_epsg \<noteq> None then
        \<lparr>db_after = db, events = [],
         raised = Some (ValueError (''source_epsg='' @ str source_epsg @ '' not a valid EPSG code.''))\<rparr>
      else if \<not> is_epsg env (Some target_epsg) then
        \<lparr>db_after = db, events = [],
         raised = Some (ValueError (''target_epsg='' @ str (Some target_epsg) @ '' not a valid EPSG code.''))\<rparr>
      else
        (case reprojection env source_epsg target_epsg of
           (ev1, crs_transformer) \<Rightarrow>
             (case AGS4_to_dataframe env filepath of
                None \<Rightarrow> \<lparr>db_after = db, events = ev1 @ [ParseFile filepath], raised = Some ParseError\<rparr>
              | Some tables \<Rightarrow>
                  (let engine = db_string username password host db_name;
                       ev2 = ev1 @ [ParseFile filepath, CreateEngine engine]
                   in
                     if \<not> connects env engine then
                       \<lparr>db_after = db, events = ev2, raised = Some OperationalError\<rparr>
                     else
                       (case next_campaign_id db schema of
                          (ev3, Inl e) \<Rightarrow> \<lparr>db_after = db, events = ev2 @ ev3, raised = Some e\<rparr>
                        | (ev3, Inr campaign_id) \<Rightarrow>
                            \<lparr>db_after =
                               db_after (load_tables env db schema target_epsg crs_transformer
                                 campaign_id tables),
                             events =
                               ev2 @ ev3 @
                               events (load_tables env db schema target_epsg crs_transformer
                                 campaign_id tables),
                             raised =
                               raised (load_tables env db schema target_epsg crs_transformer
                                 campaign_id tables)\<rparr>)))))"

section \<open>Reading a run\<close>

text \<open>The rows an event writes and the table it writes to; the other events write nothing.\<close>

fun written_rows :: "'f event \<Rightarrow> 'f row list" where
  "written_rows (ToPostgis schema name rows) = rows"
| "written_rows (ToSql schema name rows) = rows"
| "written_rows _ = []"

fun target :: "'f event \<Rightarrow> (string \<times> string) option" where
  "target (ToPostgis schema name rows) = Some (schema, name)"
| "target (ToSql schema name rows) = Some (schema, name)"
| "target _ = None"

definition is_write :: "'f event \<Rightarrow> bool" where
  "is_write e = (target e \<noteq> None)"

text \<open>The event that opens the resolution of the campaign id: the look for the table \<^verbatim>\<open>loca\<close>.\<close>

fun is_resolve :: "'f event \<Rightarrow> bool" where
  "is_resolve (HasTable schema name) = True"
| "is_resolve _ = False"

text \<open>A row carries a campaign id: it has a cell \<^verbatim>\<open>campaign_id\<close>, and each such cell holds that id.\<close>

definition carries :: "int \<Rightarrow> 'f row \<Rightarrow> bool" where
  "carries cid r =
     (''campaign_id'' \<in> set (map fst r) \<and> (\<forall>c \<in> set r. fst c = ''campaign_id'' \<longrightarrow> snd c = IntC cid))"

text \<open>The rows a run wrote to one table, in order, and the rows a table of the store holds.\<close>

definition rows_to :: "string \<times> string \<Rightarrow> 'f event list \<Rightarrow> 'f row list" where
  "rows_to k evs = concat (map (\<lambda>e. if target e = Some k then written_rows e else []) evs)"

definition rows_in :: "'f store \<Rightarrow> string \<times> string \<Rightarrow> 'f row list" where
  "rows_in db k = (case db k of None \<Rightarrow> [] | Some t \<Rightarrow> trows t)"

text \<open>The reprojection that an optional transformer stands for: none is the identity.\<close>

definition reprojected :: "('f \<times> 'f \<Rightarrow> 'f \<times> 'f) option \<Rightarrow> 'f \<times> 'f \<Rightarrow> 'f \<times> 'f" where
  "reprojected crs_transformer p = (case crs_transformer of None \<Rightarrow> p | Some f \<Rightarrow> f p)"

text \<open>
  What a cell of the X column gives as the first coordinate of a point: the number it
  holds, as a float (a numeric string is parsed, an int converted), with nothing added.
  What a cell of the Y column gives as the second coordinate: the number it holds plus
  10000. A cell that holds no number gives no coordinate.
\<close>

definition x_of :: "'f env \<Rightarrow> 'f cell \<Rightarrow> 'f \<Rightarrow> bool" where
  "x_of env c x =
     (case c of
        Num v \<Rightarrow> x = v
      | IntC i \<Rightarrow> x = float64 env i
      | Text s \<Rightarrow> float_of_str env s = Some x
      | Null \<Rightarrow> False
      | Geom a b crs \<Rightarrow> False)"

definition y_plus_10000 :: "('f::plus) env \<Rightarrow> 'f cell \<Rightarrow> 'f \<Rightarrow> bool" where
  "y_plus_10000 env c y' =
     (case c of
        Num y \<Rightarrow> y' = y + float64 env 10000
      | IntC j \<Rightarrow> y' = float64 env (j + 10000)
      | Text s \<Rightarrow> False
      | Null \<Rightarrow> False
      | Geom a b crs \<Rightarrow> False)"

text \<open>The rows of a frame with a point attached to each, as the last cell \<^verbatim>\<open>geom\<close>.\<close>

definition geo_records :: "'f dataframe \<Rightarrow> ('f \<times> 'f) list \<Rightarrow> int \<Rightarrow> 'f row list" where
  "geo_records df points epsg =
     map2 (\<lambda>r p. r @ [(''geom'', Geom (fst p) (snd p) epsg)]) (records df) points"

text \<open>Where an event of the loop comes from: the table of the document that wrote it.\<close>

definition written_from ::
  "('f::plus) env \<Rightarrow> string \<Rightarrow> int \<Rightarrow> ('f \<times> 'f \<Rightarrow> 'f \<times> 'f) option \<Rightarrow> int \<Rightarrow> string \<Rightarrow> 'f dataframe
     \<Rightarrow> 'f event \<Rightarrow> bool" where
  "written_from env schema target_epsg crs_transformer campaign_id key raw e =
     (\<exists>df0. convert_to_numeric env raw = Some df0 \<and>
        (if key = ''LOCA''
         then \<exists>points gdf. geometry env crs_transformer (stamped campaign_id df0) = Inr points \<and>
                spatial_frame (stamped campaign_id df0) points target_epsg = Inr gdf \<and>
                e = ToPostgis schema (lower key) (records gdf)
         else e = ToSql schema (lower key) (records (stamped campaign_id df0))))"

text \<open>
  The events of a run before the loop: the transformer, the parser, the engine and the
  resolution of the campaign id.
\<close>

definition prelude ::
  "'f env \<Rightarrow> 'f store \<Rightarrow> string \<Rightarrow> string \<Rightarrow> string \<Rightarrow> int \<Rightarrow> string \<Rightarrow> int option \<Rightarrow> string \<Rightarrow> string
     \<Rightarrow> 'f event list" where
  "prelude env db filepath username password target_epsg schema source_epsg db_name host =
     fst (reprojection env source_epsg target_epsg) @
     [ParseFile filepath, CreateEngine (db_string username password host db_name)] @
     fst (next_campaign_id db schema)"

section \<open>A concrete site\<close>

text \<open>
  A document with a location table and a sample table, a registry of two codes, a store
  that accepts every write, and a transformer that shifts a point by (1, 2). Floats are
  taken as integers here, where the sums are exact.
\<close>

definition loca0 :: "int dataframe" where
  "loca0 = \<lparr>index_len = 1, cols = [(''LOCA_LOCX'', [Num 100]), (''LOCA_LOCY'', [Num 200])]\<rparr>"

text \<open>A location table whose X column holds text.\<close>

definition loca_text :: "int dataframe" where
  "loca_text = \<lparr>index_len = 1, cols = [(''LOCA_LOCX'', [Text ''100'']), (''LOCA_LOCY'', [Num 200])]\<rparr>"

definition samp0 :: "int dataframe" where
  "samp0 = \<lparr>index_len = 1, cols = [(''SAMP_ID'', [Text ''A1'']), (''Campaign_ID'', [Text ''old''])]\<rparr>"

definition doc0 :: "(string \<times> int dataframe) list" where
  "doc0 = [(''LOCA'', loca0), (''SAMP'', samp0)]"

text \<open>The same location table under the key \<^verbatim>\<open>Loca\<close>.\<close>

definition doc1 :: "(string \<times> int dataframe) list" where
  "doc1 = [(''Loca'', loca0)]"

definition env0 :: "int env" where
  "env0 =
     \<lparr>epsg_codes = [''27700'', ''4326''],
      from_crs = (\<lambda>s t p. (fst p + 1, snd p + 2)),
      AGS4_to_dataframe =
        (\<lambda>f. if f = ''site.ags'' then Some doc0 else if f = ''mixed.ags'' then Some doc1 else None),
      convert_to_numeric = Some,
      connects = (\<lambda>s. True),
      accepts = (\<lambda>n t r. True),
      float64 = (\<lambda>i. i),
      float_of_str = (\<lambda>s. if s = ''100'' then Some 100 else None)\<rparr>"

text \<open>A store whose location layer holds campaign ids 3 and 7, and one whose location layer is empty.\<close>

definition loca7 :: "int stored" where
  "loca7 =
     \<lparr>tcols = [''loca_locx'', ''loca_locy'', ''campaign_id'', ''geom''],
      trows = [[(''loca_locx'', Num 1), (''loca_locy'', Num 2), (''campaign_id'', IntC 3),
                (''geom'', Geom 1 10002 27700)],
               [(''loca_locx'', Num 5), (''loca_locy'', Num 6), (''campaign_id'', IntC 7),
                (''geom'', Geom 5 10006 27700)]]\<rparr>"

definition db7 :: "int store" where
  "db7 = [(''si'', ''loca'') \<mapsto> loca7]"

definition db_empty_loca :: "int store" where
  "db_empty_loca =
     [(''si'', ''loca'') \<mapsto>
        \<lparr>tcols = [''loca_locx'', ''loca_locy'', ''campaign_id'', ''geom''], trows = []\<rparr>]"

section \<open>Evaluation rules\<close>

lemma str_nat_small: "n < 10 \<Longrightarrow> str_nat n = [digit_char n]"
  by (simp add: str_nat.simps)

lemma str_nat_big: "\<not> n < 10 \<Longrightarrow> str_nat n = str_nat (n div 10) @ [digit_char (n mod 10)]"
  by (subst str_nat.simps) simp

lemmas str_eval = str_def str_int_def str_nat_small str_nat_big digit_char_def

section \<open>Frames\<close>

lemma map_fst_set_column:
  "map fst (map (\<lambda>c. if fst c = key then (key, column) else c) xs) = map fst xs"
  by (induction xs) auto

lemma labels_setitem:
  "labels (setitem df key v) = (if key \<in> set (labels df) then labels df else labels df @ [key])"
  by (simp add: setitem_def labels_def Let_def map_fst_set_column)

lemma index_len_setitem: "index_len (setitem df key v) = index_len df"
  by (simp add: setitem_def Let_def)

lemma set_column_snd:
  "(key, vs) \<in> set (map (\<lambda>c. if fst c = key then (key, column) else c) xs) \<Longrightarrow> vs = column"
  by (induction xs) (auto split: if_splits)

lemma column_setitem:
  assumes "c \<in> set (cols (setitem df key v))" and "fst c = key"
  shows "snd c = replicate (index_len df) v"
proof (cases "key \<in> set (labels df)")
  case True
  then have "cols (setitem df key v) =
      map (\<lambda>c. if fst c = key then (key, replicate (index_len df) v) else c) (cols df)"
    by (simp add: setitem_def Let_def)
  moreover have "c = (key, snd c)"
    using assms(2) by (cases c) simp
  ultimately have "(key, snd c) \<in>
      set (map (\<lambda>c. if fst c = key then (key, replicate (index_len df) v) else c) (cols df))"
    using assms(1) by simp
  then show ?thesis
    by (rule set_column_snd)
next
  case False
  with assms have "c \<in> set (cols df) \<or> c = (key, replicate (index_len df) v)"
    by (auto simp: setitem_def Let_def)
  moreover have "c \<notin> set (cols df)"
    using False assms(2) by (auto simp: labels_def)
  ultimately show ?thesis by simp
qed

lemma filter_set_column:
  "k \<noteq> key \<Longrightarrow>
     filter (\<lambda>c. fst c = k) (map (\<lambda>c. if fst c = key then (key, column) else c) xs) =
     filter (\<lambda>c. fst c = k) xs"
  by (induction xs) auto

lemma filter_setitem:
  "k \<noteq> key \<Longrightarrow> filter (\<lambda>c. fst c = k) (cols (setitem df key v)) = filter (\<lambda>c. fst c = k) (cols df)"
  by (simp add: setitem_def Let_def filter_set_column)

lemma labels_lower_columns: "labels (lower_columns df) = map lower (labels df)"
  by (simp add: lower_columns_def labels_def comp_def)

lemma filter_lower:
  "filter (\<lambda>c. fst c = k) (map (\<lambda>c. (lower (fst c), snd c)) xs) =
     map (\<lambda>c. (k, snd c)) (filter (\<lambda>c. lower (fst c) = k) xs)"
  by (induction xs) auto

lemma filter_lower_columns:
  "filter (\<lambda>c. fst c = k) (cols (lower_columns df)) =
     map (\<lambda>c. (k, snd c)) (filter (\<lambda>c. lower (fst c) = k) (cols df))"
  by (simp add: lower_columns_def filter_lower)

lemma labels_stamped: "''campaign_id'' \<in> set (labels (stamped cid df0))"
  by (simp add: stamped_def labels_setitem)

lemma index_len_stamped: "index_len (stamped cid df0) = index_len df0"
  by (simp add: stamped_def index_len_setitem lower_columns_def)

lemma campaign_column_stamped:
  "c \<in> set (cols (stamped cid df0)) \<Longrightarrow> fst c = ''campaign_id'' \<Longrightarrow>
     snd c = replicate (index_len df0) (IntC cid)"
  using column_setitem[of c "lower_columns df0" "''campaign_id''" "IntC cid"]
  by (simp add: stamped_def lower_columns_def)

lemma other_columns_stamped:
  "k \<noteq> ''campaign_id'' \<Longrightarrow>
     filter (\<lambda>c. fst c = k) (cols (stamped cid df0)) =
     map (\<lambda>c. (k, snd c)) (filter (\<lambda>c. lower (fst c) = k) (cols df0))"
  by (simp add: stamped_def filter_setitem filter_lower_columns)

lemma carries_records: "r \<in> set (records (stamped cid df0)) \<Longrightarrow> carries cid r"
proof -
  assume "r \<in> set (records (stamped cid df0))"
  then obtain i where i: "i < index_len df0"
    and r: "r = map (\<lambda>c. (fst c, snd c ! i)) (cols (stamped cid df0))"
    by (auto simp: records_def index_len_stamped)
  have "''campaign_id'' \<in> set (map fst r)"
    using labels_stamped[of cid df0] by (simp add: r labels_def comp_def)
  moreover have "snd c = IntC cid" if "c \<in> set r" "fst c = ''campaign_id''" for c
  proof -
    from that obtain c' where c': "c' \<in> set (cols (stamped cid df0))" "c = (fst c', snd c' ! i)"
      by (auto simp: r)
    with that have "snd c' = replicate (index_len df0) (IntC cid)"
      by (auto dest: campaign_column_stamped)
    with c' i show ?thesis by simp
  qed
  ultimately show ?thesis by (simp add: carries_def)
qed

lemma GeoDataFrame_Inr: "GeoDataFrame df = Inr gdf \<Longrightarrow> gdf = df"
  by (simp add: GeoDataFrame_def split: if_splits)

lemma index_len_set_geometry: "index_len (set_geometry gdf points crs) = index_len gdf"
  by (simp add: set_geometry_def Let_def)

lemma labels_set_geometry:
  "labels (set_geometry gdf points crs) =
     (if ''geometry'' \<in> set (labels gdf) then labels gdf else labels gdf @ [''geometry''])"
  by (simp add: set_geometry_def labels_def Let_def map_fst_set_column)

lemma cols_set_geometry:
  "c \<in> set (cols (set_geometry gdf points crs)) \<Longrightarrow> fst c \<noteq> ''geometry'' \<Longrightarrow> c \<in> set (cols gdf)"
  by (auto simp: set_geometry_def Let_def split: if_splits)

lemma spatial_frame_Inr:
  assumes "spatial_frame df points epsg = Inr gdf"
  shows "index_len gdf = index_len df"
    and "''campaign_id'' \<in> set (labels df) \<Longrightarrow> ''campaign_id'' \<in> set (labels gdf)"
    and "c \<in> set (cols gdf) \<Longrightarrow> fst c = ''campaign_id'' \<Longrightarrow> c \<in> set (cols df)"
proof -
  let ?g = "set_geometry df points epsg"
  from assms have g: "GeoDataFrame df = Inr df" and r: "rename_geometry ?g ''geom'' = Inr gdf"
    by (auto simp: spatial_frame_def split: sum.splits dest: GeoDataFrame_Inr)
  from r have gdf: "gdf = ?g\<lparr>cols := map (\<lambda>c. if fst c = ''geometry'' then (''geom'', snd c) else c) (cols ?g)\<rparr>"
    by (simp add: rename_geometry_def split: if_splits)
  show "index_len gdf = index_len df"
    by (simp add: gdf index_len_set_geometry)
  show "''campaign_id'' \<in> set (labels gdf)" if "''campaign_id'' \<in> set (labels df)"
  proof -
    from that have "''campaign_id'' \<in> set (labels ?g)"
      by (simp add: labels_set_geometry)
    then obtain c where "c \<in> set (cols ?g)" "fst c = ''campaign_id''"
      by (auto simp: labels_def)
    then show ?thesis
      by (force simp: gdf labels_def)
  qed
  show "c \<in> set (cols df)" if "c \<in> set (cols gdf)" "fst c = ''campaign_id''"
  proof -
    from that have "c \<in> set (cols ?g)"
      by (auto simp: gdf split: if_splits)
    with that(2) show ?thesis
      by (auto dest: cols_set_geometry)
  qed
qed

lemma carries_spatial_records:
  assumes "spatial_frame (stamped cid df0) points epsg = Inr gdf" and "r \<in> set (records gdf)"
  shows "carries cid r"
proof -
  note sf = spatial_frame_Inr[OF assms(1)]
  from assms(2) obtain i where i: "i < index_len df0"
    and r: "r = map (\<lambda>c. (fst c, snd c ! i)) (cols gdf)"
    by (auto simp: records_def sf(1) index_len_stamped)
  have "''campaign_id'' \<in> set (map fst r)"
    using sf(2)[OF labels_stamped] by (simp add: r labels_def comp_def)
  moreover have "snd c = IntC cid" if "c \<in> set r" "fst c = ''campaign_id''" for c
  proof -
    from that obtain c' where c': "c' \<in> set (cols gdf)" "c = (fst c', snd c' ! i)"
      by (auto simp: r)
    with that have "c' \<in> set (cols (stamped cid df0))"
      by (auto intro: sf(3))
    with c' that have "snd c' = replicate (index_len df0) (IntC cid)"
      by (auto dest: campaign_column_stamped)
    with c' i show ?thesis by simp
  qed
  ultimately show ?thesis by (simp add: carries_def)
qed

section \<open>Appending to the store\<close>

lemma insert_rows_append:
  assumes "insert_rows env db k columns rows Append = Inr db'"
  shows "db' = db(k \<mapsto> (case db k of None \<Rightarrow> \<lparr>tcols = columns, trows = rows\<rparr>
                                    | Some t \<Rightarrow> t\<lparr>trows := trows t @ rows\<rparr>))"
  using assms by (auto simp: insert_rows_def split: option.splits if_splits)

lemma rows_in_append:
  assumes "insert_rows env db k columns rows Append = Inr db'"
  shows "rows_in db' k' = rows_in db k' @ (if k' = k then rows else [])"
  using insert_rows_append[OF assms] by (auto simp: rows_in_def split: option.splits)

lemma tcols_append:
  assumes "insert_rows env db k columns rows Append = Inr db'" and "db k' = Some t"
  shows "\<exists>t'. db' k' = Some t' \<and> tcols t' = tcols t"
  using insert_rows_append[OF assms(1)] assms(2) by (auto split: option.splits)

section \<open>One table\<close>

lemma load_table_cases:
  obtains (failed) e where
      "load_table env db schema target_epsg crs_transformer campaign_id key raw =
         \<lparr>db_after = db, events = [], raised = Some e\<rparr>"
  | (spatial) df0 points gdf db' where
      "key = ''LOCA''"
      "convert_to_numeric env raw = Some df0"
      "geometry env crs_transformer (stamped campaign_id df0) = Inr points"
      "spatial_frame (stamped campaign_id df0) points target_epsg = Inr gdf"
      "insert_rows env db (schema, lower key) (labels gdf) (records gdf) Append = Inr db'"
      "load_table env db schema target_epsg crs_transformer campaign_id key raw =
         \<lparr>db_after = db', events = [ToPostgis schema (lower key) (records gdf)], raised = None\<rparr>"
  | (plain) df0 db' where
      "key \<noteq> ''LOCA''"
      "convert_to_numeric env raw = Some df0"
      "insert_rows env db (schema, lower key) (labels (stamped campaign_id df0))
         (records (stamped campaign_id df0)) Append = Inr db'"
      "load_table env db schema target_epsg crs_transformer campaign_id key raw =
         \<lparr>db_after = db', events = [ToSql schema (lower key) (records (stamped campaign_id df0))],
          raised = None\<rparr>"
proof (cases "convert_to_numeric env raw")
  case None
  then show ?thesis
    using failed by (simp add: load_table_def)
next
  case (Some df0)
  show ?thesis
  proof (cases "key = ''LOCA''")
    case True
    show ?thesis
    proof (cases "geometry env crs_transformer (stamped campaign_id df0)")
      case (Inl e)
      with Some True show ?thesis
        using failed by (simp add: load_table_def Let_def)
    next
      case points: (Inr points)
      show ?thesis
      proof (cases "spatial_frame (stamped campaign_id df0) points target_epsg")
        case (Inl e)
        with Some True points show ?thesis
          using failed by (simp add: load_table_def Let_def)
      next
        case frame: (Inr gdf)
        show ?thesis
        proof (cases "insert_rows env db (schema, lower key) (labels gdf) (records gdf) Append")
          case (Inl e)
          with Some True points frame show ?thesis
            using failed by (simp add: load_table_def to_postgis_def Let_def)
        next
          case inserted: (Inr db')
          show ?thesis
          proof (rule spatial[OF True Some points frame inserted])
            show "load_table env db schema target_epsg crs_transformer campaign_id key raw =
               \<lparr>db_after = db', events = [ToPostgis schema (lower key) (records gdf)], raised = None\<rparr>"
              using Some True points frame inserted
              by (simp add: load_table_def to_postgis_def Let_def)
          qed
        qed
      qed
    qed
  next
    case False
    show ?thesis
    proof (cases "insert_rows env db (schema, lower key) (labels (stamped campaign_id df0))
        (records (stamped campaign_id df0)) Append")
      case (Inl e)
      with Some False show ?thesis
        using failed by (simp add: load_table_def to_sql_def Let_def)
    next
      case inserted: (Inr db')
      show ?thesis
      proof (rule plain[OF False Some inserted])
        show "load_table env db schema target_epsg crs_transformer campaign_id key raw =
           \<lparr>db_after = db', events = [ToSql schema (lower key) (records (stamped campaign_id df0))],
            raised = None\<rparr>"
          using Some False inserted by (simp add: load_table_def to_sql_def Let_def)
      qed
    qed
  qed
qed

section \<open>The loop\<close>

lemma load_tables_failed:
  "load_table env db schema target_epsg crs_transformer campaign_id key raw =
     \<lparr>db_after = db, events = [], raised = Some e\<rparr> \<Longrightarrow>
   load_tables env db schema target_epsg crs_transformer campaign_id ((key, raw) # rest) =
     \<lparr>db_after = db, events = [], raised = Some e\<rparr>"
  by simp

lemma load_tables_written:
  "load_table env db schema target_epsg crs_transformer campaign_id key raw =
     \<lparr>db_after = db', events = evs, raised = None\<rparr> \<Longrightarrow>
   load_tables env db schema target_epsg crs_transformer campaign_id ((key, raw) # rest) =
     \<lparr>db_after = db_after (load_tables env db' schema target_epsg crs_transformer campaign_id rest),
      events = evs @ events (load_tables env db' schema target_epsg crs_transformer campaign_id rest),
      raised = raised (load_tables env db' schema target_epsg crs_transformer campaign_id rest)\<rparr>"
  by simp

lemma load_tables_events:
  "e \<in> set (events (load_tables env db schema target_epsg crs_transformer campaign_id tables)) \<Longrightarrow>
     \<exists>key raw. (key, raw) \<in> set tables \<and>
       written_from env schema target_epsg crs_transformer campaign_id key raw e"
proof (induction tables arbitrary: db)
  case Nil
  then show ?case by simp
next
  case (Cons kr rest)
  obtain key raw where kr: "kr = (key, raw)" by (cases kr)
  show ?case
  proof (cases rule: load_table_cases[of env db schema target_epsg crs_transformer campaign_id key raw])
    case (failed e')
    with Cons.prems show ?thesis
      by (simp add: kr load_tables_failed del: load_tables.simps)
  next
    case (spatial df0 points gdf db')
    from Cons.prems have "e = ToPostgis schema (lower key) (records gdf)
        \<or> e \<in> set (events (load_tables env db' schema target_epsg crs_transformer campaign_id rest))"
      by (simp add: kr load_tables_written[OF spatial(6)] del: load_tables.simps)
    then show ?thesis
    proof
      assume "e = ToPostgis schema (lower key) (records gdf)"
      with spatial have "written_from env schema target_epsg crs_transformer campaign_id key raw e"
        by (auto simp: written_from_def)
      then show ?thesis by (auto simp: kr)
    next
      assume "e \<in> set (events (load_tables env db' schema target_epsg crs_transformer campaign_id rest))"
      from Cons.IH[OF this] show ?thesis by auto
    qed
  next
    case (plain df0 db')
    from Cons.prems have "e = ToSql schema (lower key) (records (stamped campaign_id df0))
        \<or> e \<in> set (events (load_tables env db' schema target_epsg crs_transformer campaign_id rest))"
      by (simp add: kr load_tables_written[OF plain(4)] del: load_tables.simps)
    then show ?thesis
    proof
      assume "e = ToSql schema (lower key) (records (stamped campaign_id df0))"
      with plain have "written_from env schema target_epsg crs_transformer campaign_id key raw e"
        by (auto simp: written_from_def)
      then show ?thesis by (auto simp: kr)
    next
      assume "e \<in> set (events (load_tables env db' schema target_epsg crs_transformer campaign_id rest))"
      from Cons.IH[OF this] show ?thesis by auto
    qed
  qed
qed

lemma rows_to_Nil: "rows_to k [] = []"
  by (simp add: rows_to_def)

lemma rows_to_Cons:
  "rows_to k (e # evs) = (if target e = Some k then written_rows e else []) @ rows_to k evs"
  by (simp add: rows_to_def)

lemma rows_to_append: "rows_to k (xs @ ys) = rows_to k xs @ rows_to k ys"
  by (simp add: rows_to_def)

lemma load_tables_rows:
  "rows_in (db_after (load_tables env db schema target_epsg crs_transformer campaign_id tables)) k =
     rows_in db k @ rows_to k (events (load_tables env db schema target_epsg crs_transformer campaign_id tables))"
proof (induction tables arbitrary: db)
  case Nil
  then show ?case by (simp add: rows_to_Nil)
next
  case (Cons kr rest)
  obtain key raw where kr: "kr = (key, raw)" by (cases kr)
  show ?case
  proof (cases rule: load_table_cases[of env db schema target_epsg crs_transformer campaign_id key raw])
    case (failed e')
    then show ?thesis
      by (simp add: kr load_tables_failed rows_to_Nil del: load_tables.simps)
  next
    case (spatial df0 points gdf db')
    show ?thesis
      using rows_in_append[OF spatial(5), of k] Cons.IH[of db']
      by (auto simp: kr load_tables_written[OF spatial(6)] rows_to_Cons simp del: load_tables.simps)
  next
    case (plain df0 db')
    show ?thesis
      using rows_in_append[OF plain(3), of k] Cons.IH[of db']
      by (auto simp: kr load_tables_written[OF plain(4)] rows_to_Cons simp del: load_tables.simps)
  qed
qed

lemma load_tables_tcols:
  "db k = Some t \<Longrightarrow>
     \<exists>t'. db_after (load_tables env db schema target_epsg crs_transformer campaign_id tables) k = Some t' \<and>
       tcols t' = tcols t"
proof (induction tables arbitrary: db t)
  case Nil
  then show ?case by simp
next
  case (Cons kr rest)
  obtain key raw where kr: "kr = (key, raw)" by (cases kr)
  show ?case
  proof (cases rule: load_table_cases[of env db schema target_epsg crs_transformer campaign_id key raw])
    case (failed e')
    with Cons.prems show ?thesis
      by (simp add: kr load_tables_failed del: load_tables.simps)
  next
    case (spatial df0 points gdf db')
    from tcols_append[OF spatial(5) Cons.prems] obtain t' where "db' k = Some t'" "tcols t' = tcols t"
      by blast
    with Cons.IH[of db' t'] show ?thesis
      by (auto simp: kr load_tables_written[OF spatial(6)] simp del: load_tables.simps)
  next
    case (plain df0 db')
    from tcols_append[OF plain(3) Cons.prems] obtain t' where "db' k = Some t'" "tcols t' = tcols t"
      by blast
    with Cons.IH[of db' t'] show ?thesis
      by (auto simp: kr load_tables_written[OF plain(4)] simp del: load_tables.simps)
  qed
qed

section \<open>The whole import\<close>

lemma next_campaign_id_events:
  "fst (next_campaign_id db schema) = [HasTable schema ''loca''] \<or>
   fst (next_campaign_id db schema) = [HasTable schema ''loca'', SelectMax schema ''loca'']"
  by (simp add: next_campaign_id_def split: option.splits)

lemma reprojection_events:
  "fst (reprojection env source_epsg target_epsg) =
     (case source_epsg of
        None \<Rightarrow> []
      | Some s \<Rightarrow> if s = target_epsg then [] else [FromCrs s target_epsg])"
  by (simp add: reprojection_def split: option.splits)

lemma prelude_no_write:
  "e \<in> set (prelude env db filepath username password target_epsg schema source_epsg db_name host) \<Longrightarrow>
     \<not> is_write e"
  using next_campaign_id_events[of db schema]
  by (auto simp: prelude_def reprojection_events is_write_def split: option.splits if_splits)

lemma prelude_resolve:
  "filter is_resolve (prelude env db filepath username password target_epsg schema source_epsg db_name host) =
     [HasTable schema ''loca'']"
  using next_campaign_id_events[of db schema]
  by (auto simp: prelude_def reprojection_events split: option.splits if_splits)

lemma prelude_FromCrs:
  "FromCrs s t \<in> set (prelude env db filepath username password target_epsg schema source_epsg db_name host) \<longleftrightarrow>
     source_epsg = Some s \<and> s \<noteq> target_epsg \<and> t = target_epsg"
  using next_campaign_id_events[of db schema]
  by (auto simp: prelude_def reprojection_events split: option.splits if_splits)

lemma ags_to_postgis_cases:
  obtains (invalid) msg where
      "\<not> is_epsg env (Some target_epsg) \<or> (source_epsg \<noteq> None \<and> \<not> is_epsg env source_epsg)"
      "ags_to_postgis env db filepath username password target_epsg schema source_epsg campaign_id
         db_name host = \<lparr>db_after = db, events = [], raised = Some (ValueError msg)\<rparr>"
  | (stopped) pre e where
      "is_epsg env (Some target_epsg)" "source_epsg = None \<or> is_epsg env source_epsg"
      "prefix pre (prelude env db filepath username password target_epsg schema source_epsg db_name host)"
      "ags_to_postgis env db filepath username password target_epsg schema source_epsg campaign_id
         db_name host = \<lparr>db_after = db, events = pre, raised = Some e\<rparr>"
  | (loaded) tables cid where
      "is_epsg env (Some target_epsg)" "source_epsg = None \<or> is_epsg env source_epsg"
      "AGS4_to_dataframe env filepath = Some tables"
      "connects env (db_string username password host db_name)"
      "snd (next_campaign_id db schema) = Inr cid"
      "ags_to_postgis env db filepath username password target_epsg schema source_epsg campaign_id
         db_name host =
       \<lparr>db_after = db_after (load_tables env db schema target_epsg
            (snd (reprojection env source_epsg target_epsg)) cid tables),
        events = prelude env db filepath username password target_epsg schema source_epsg db_name host @
          events (load_tables env db schema target_epsg
            (snd (reprojection env source_epsg target_epsg)) cid tables),
        raised = raised (load_tables env db schema target_epsg
            (snd (reprojection env source_epsg target_epsg)) cid tables)\<rparr>"
proof (cases "\<not> is_epsg env (Some target_epsg) \<or> (source_epsg \<noteq> None \<and> \<not> is_epsg env source_epsg)")
  case bad: True
  show ?thesis
  proof (cases "\<not> is_epsg env source_epsg \<and> source_epsg \<noteq> None")
    case True
    then have "ags_to_postgis env db filepath username password target_epsg schema source_epsg
        campaign_id db_name host =
        \<lparr>db_after = db, events = [],
         raised = Some (ValueError (''source_epsg='' @ str source_epsg @ '' not a valid EPSG code.''))\<rparr>"
      by (simp add: ags_to_postgis_def)
    with bad show ?thesis by (rule invalid)
  next
    case False
    with bad have "\<not> is_epsg env (Some target_epsg)" by auto
    with False have "ags_to_postgis env db filepath username password target_epsg schema source_epsg
        campaign_id db_name host =
        \<lparr>db_after = db, events = [],
         raised = Some (ValueError (''target_epsg='' @ str (Some target_epsg) @ '' not a valid EPSG code.''))\<rparr>"
      by (simp add: ags_to_postgis_def)
    with bad show ?thesis by (rule invalid)
  qed
next
  case valid: False
  then have v1: "is_epsg env (Some target_epsg)" by simp
  from valid have v2: "source_epsg = None \<or> is_epsg env source_epsg" by auto
  obtain ev1 tr where rp: "reprojection env source_epsg target_epsg = (ev1, tr)"
    by (cases "reprojection env source_epsg target_epsg")
  obtain ev3 res where nc: "next_campaign_id db schema = (ev3, res)"
    by (cases "next_campaign_id db schema")
  show ?thesis
  proof (cases "AGS4_to_dataframe env filepath")
    case None
    have pfx: "prefix (ev1 @ [ParseFile filepath])
        (prelude env db filepath username password target_epsg schema source_epsg db_name host)"
      by (simp add: prelude_def rp)
    have eq: "ags_to_postgis env db filepath username password target_epsg schema source_epsg
        campaign_id db_name host =
        \<lparr>db_after = db, events = ev1 @ [ParseFile filepath], raised = Some ParseError\<rparr>"
      using valid None by (auto simp: ags_to_postgis_def rp)
    show ?thesis
      by (rule stopped[OF v1 v2 pfx eq])
  next
    case (Some tables)
    show ?thesis
    proof (cases "connects env (db_string username password host db_name)")
      case False
      have pfx: "prefix (ev1 @ [ParseFile filepath, CreateEngine (db_string username password host db_name)])
          (prelude env db filepath username password target_epsg schema source_epsg db_name host)"
        by (simp add: prelude_def rp)
      have eq: "ags_to_postgis env db filepath username password target_epsg schema source_epsg
          campaign_id db_name host =
          \<lparr>db_after = db,
           events = ev1 @ [ParseFile filepath, CreateEngine (db_string username password host db_name)],
           raised = Some OperationalError\<rparr>"
        using valid Some False by (auto simp: ags_to_postgis_def rp Let_def)
      show ?thesis
      by (rule stopped[OF v1 v2 pfx eq])
    next
      case True
      show ?thesis
      proof (cases res)
        case (Inl e)
        have pfx: "prefix (prelude env db filepath username password target_epsg schema source_epsg db_name host)
            (prelude env db filepath username password target_epsg schema source_epsg db_name host)"
          by simp
        have eq: "ags_to_postgis env db filepath username password target_epsg schema source_epsg
            campaign_id db_name host =
            \<lparr>db_after = db,
             events = prelude env db filepath username password target_epsg schema source_epsg db_name host,
             raised = Some e\<rparr>"
          using valid Some True Inl by (auto simp: ags_to_postgis_def rp nc Let_def prelude_def)
        show ?thesis
      by (rule stopped[OF v1 v2 pfx eq])
      next
        case (Inr cid)
        show ?thesis
        proof (rule loaded[of tables cid])
          show "is_epsg env (Some target_epsg)" by (rule v1)
          show "source_epsg = None \<or> is_epsg env source_epsg" by (rule v2)
          show "AGS4_to_dataframe env filepath = Some tables" by (rule Some)
          show "connects env (db_string username password host db_name)" by (rule True)
          show "snd (next_campaign_id db schema) = Inr cid" by (simp add: nc Inr)
          show "ags_to_postgis env db filepath username password target_epsg schema source_epsg campaign_id
               db_name host =
             \<lparr>db_after = db_after (load_tables env db schema target_epsg
                  (snd (reprojection env source_epsg target_epsg)) cid tables),
              events = prelude env db filepath username password target_epsg schema source_epsg db_name host @
                events (load_tables env db schema target_epsg
                  (snd (reprojection env source_epsg target_epsg)) cid tables),
              raised = raised (load_tables env db schema target_epsg
                  (snd (reprojection env source_epsg target_epsg)) cid tables)\<rparr>"
            using valid Some True Inr by (auto simp: ags_to_postgis_def rp nc Let_def prelude_def)
        qed
      qed
    qed
  qed
qed

section \<open>Facts about runs\<close>

lemma not_write_no_rows: "\<not> is_write e \<Longrightarrow> written_rows e = []"
  by (cases e) (simp_all add: is_write_def)

lemma write_not_resolve: "is_write e \<Longrightarrow> \<not> is_resolve e"
  by (cases e) (simp_all add: is_write_def)

lemma written_from_is_write:
  "written_from env schema target_epsg crs_transformer campaign_id key raw e \<Longrightarrow>
     is_write e \<and> target e = Some (schema, lower key)"
  by (auto simp: written_from_def is_write_def split: if_splits)

lemma written_from_carries:
  "written_from env schema target_epsg crs_transformer campaign_id key raw e \<Longrightarrow>
     r \<in> set (written_rows e) \<Longrightarrow> carries campaign_id r"
  by (auto simp: written_from_def split: if_splits dest: carries_records carries_spatial_records)

lemma load_tables_writes:
  "e \<in> set (events (load_tables env db schema target_epsg crs_transformer campaign_id tables)) \<Longrightarrow>
     is_write e"
  using load_tables_events written_from_is_write by blast

lemma load_tables_carries:
  "e \<in> set (events (load_tables env db schema target_epsg crs_transformer campaign_id tables)) \<Longrightarrow>
     r \<in> set (written_rows e) \<Longrightarrow> carries campaign_id r"
  using load_tables_events written_from_carries by blast

lemma prefix_no_write:
  assumes "prefix pre (prelude env db filepath username password target_epsg schema source_epsg db_name host)"
    and "e \<in> set pre"
  shows "\<not> is_write e"
  using assms prelude_no_write by (metis set_mono_prefix subsetD)

lemma prefix_resolve:
  assumes "prefix pre (prelude env db filepath username password target_epsg schema source_epsg db_name host)"
  shows "length (filter is_resolve pre) \<le> 1"
proof -
  from assms obtain zs where
    "prelude env db filepath username password target_epsg schema source_epsg db_name host = pre @ zs"
    by (auto simp: prefix_def)
  then have "filter is_resolve pre @ filter is_resolve zs = [HasTable schema ''loca'']"
    using prelude_resolve[of env db filepath username password target_epsg schema source_epsg db_name host]
    by simp
  then have "length (filter is_resolve pre) + length (filter is_resolve zs) = 1"
    by (metis length_append length_Cons list.size(3) One_nat_def)
  then show ?thesis by simp
qed

lemma rows_to_no_write: "\<forall>e \<in> set evs. \<not> is_write e \<Longrightarrow> rows_to k evs = []"
  by (induction evs) (simp_all add: rows_to_Nil rows_to_Cons not_write_no_rows)

lemma select_max_Max:
  "campaign_ids (trows t) \<noteq> [] \<Longrightarrow> select_max t = Some (Max (set (campaign_ids (trows t))))"
  by (cases "campaign_ids (trows t)") (simp_all add: select_max_def Max.set_eq_fold del: set_simps)

lemma next_campaign_id_absent:
  "db (schema, ''loca'') = None \<Longrightarrow> snd (next_campaign_id db schema) = Inr 1"
  by (simp add: next_campaign_id_def)

lemma next_campaign_id_present:
  "db (schema, ''loca'') = Some t \<Longrightarrow> ''campaign_id'' \<in> set (tcols t) \<Longrightarrow>
     campaign_ids (trows t) \<noteq> [] \<Longrightarrow>
     snd (next_campaign_id db schema) = Inr (Max (set (campaign_ids (trows t))) + 1)"
  by (simp add: next_campaign_id_def select_max_Max)

text \<open>Every row a run writes carries the campaign id that the store resolves to.\<close>

lemma run_carries:
  assumes "snd (next_campaign_id db schema) = Inr cid"
    and "e \<in> set (events (ags_to_postgis env db filepath username password target_epsg schema
          source_epsg campaign_id db_name host))"
    and "r \<in> set (written_rows e)"
  shows "carries cid r"
proof (cases rule: ags_to_postgis_cases[of env target_epsg source_epsg db filepath username password
      schema campaign_id db_name host])
  case (invalid msg)
  with assms(2) show ?thesis by simp
next
  case (stopped pre e')
  with assms(2) have "\<not> is_write e"
    using prefix_no_write[OF stopped(3)] by simp
  with assms(3) show ?thesis by (simp add: not_write_no_rows)
next
  case (loaded tables cid')
  with assms(1) have cid: "cid' = cid" by simp
  from assms(2) loaded(6) consider
      "e \<in> set (prelude env db filepath username password target_epsg schema source_epsg db_name host)"
    | "e \<in> set (events (load_tables env db schema target_epsg
          (snd (reprojection env source_epsg target_epsg)) cid' tables))"
    by auto
  then show ?thesis
  proof cases
    case 1
    then have "\<not> is_write e" by (rule prelude_no_write)
    with assms(3) show ?thesis by (simp add: not_write_no_rows)
  next
    case 2
    from load_tables_carries[OF 2 assms(3)] show ?thesis by (simp add: cid)
  qed
qed

text \<open>The caller's campaign id has no effect on the run.\<close>

lemma campaign_id_unused:
  "ags_to_postgis env db filepath username password target_epsg schema source_epsg campaign_id
     db_name host =
   ags_to_postgis env db filepath username password target_epsg schema source_epsg None db_name host"
  by (simp add: ags_to_postgis_def)

lemma same_epsg_run:
  assumes "is_epsg env (Some target_epsg)"
  shows "ags_to_postgis env db filepath username password target_epsg schema (Some target_epsg)
           campaign_id db_name host =
         ags_to_postgis env db filepath username password target_epsg schema None campaign_id
           db_name host"
  using assms by (simp add: ags_to_postgis_def reprojection_def)

lemma same_epsg_invalid:
  assumes "\<not> is_epsg env (Some target_epsg)"
  shows "ags_to_postgis env db filepath username password target_epsg schema (Some target_epsg)
           campaign_id db_name host =
         \<lparr>db_after = db, events = [],
          raised = Some (ValueError (''source_epsg='' @ str (Some target_epsg) @ '' not a valid EPSG code.''))\<rparr>"
    and "ags_to_postgis env db filepath username password target_epsg schema None
           campaign_id db_name host =
         \<lparr>db_after = db, events = [],
          raised = Some (ValueError (''target_epsg='' @ str (Some target_epsg) @ '' not a valid EPSG code.''))\<rparr>"
  using assms by (simp_all add: ags_to_postgis_def)

lemma run_FromCrs:
  assumes "FromCrs s t \<in> set (events (ags_to_postgis env db filepath username password target_epsg
      schema source_epsg campaign_id db_name host))"
  shows "source_epsg = Some s \<and> s \<noteq> target_epsg \<and> t = target_epsg"
proof (cases rule: ags_to_postgis_cases[of env target_epsg source_epsg db filepath username password
      schema campaign_id db_name host])
  case (invalid msg)
  with assms show ?thesis by simp
next
  case (stopped pre e')
  with assms have "FromCrs s t \<in> set pre" by simp
  with stopped(3) have "FromCrs s t \<in> set (prelude env db filepath username password target_epsg
      schema source_epsg db_name host)"
    by (metis set_mono_prefix subsetD)
  then show ?thesis by (simp add: prelude_FromCrs)
next
  case (loaded tables cid)
  from assms loaded(6) consider
      "FromCrs s t \<in> set (prelude env db filepath username password target_epsg schema source_epsg db_name host)"
    | "FromCrs s t \<in> set (events (load_tables env db schema target_epsg
          (snd (reprojection env source_epsg target_epsg)) cid tables))"
    by auto
  then show ?thesis
  proof cases
    case 1
    then show ?thesis by (simp add: prelude_FromCrs)
  next
    case 2
    from load_tables_writes[OF 2] show ?thesis by (simp add: is_write_def)
  qed
qed

lemma run_rows:
  "rows_in (db_after (ags_to_postgis env db filepath username password target_epsg schema
       source_epsg campaign_id db_name host)) k =
     rows_in db k @
     rows_to k (events (ags_to_postgis env db filepath username password target_epsg schema
       source_epsg campaign_id db_name host))"
proof (cases rule: ags_to_postgis_cases[of env target_epsg source_epsg db filepath
      username password schema campaign_id db_name host])
  case (invalid msg)
  then show ?thesis by (simp add: rows_to_Nil)
next
  case (stopped pre e')
  have "\<forall>e \<in> set pre. \<not> is_write e"
    using prefix_no_write[OF stopped(3)] by blast
  then show ?thesis
    by (simp add: stopped(4) rows_to_no_write)
next
  case (loaded tables cid)
  have "\<forall>e \<in> set (prelude env db filepath username password target_epsg schema source_epsg
      db_name host). \<not> is_write e"
    using prelude_no_write by blast
  then show ?thesis
    using load_tables_rows[of env db schema target_epsg
        "snd (reprojection env source_epsg target_epsg)" cid tables k]
    by (simp add: loaded(6) rows_to_append rows_to_no_write)
qed

lemma run_tcols:
  assumes "db k = Some t"
  shows "\<exists>t'. db_after (ags_to_postgis env db filepath username password target_epsg schema
       source_epsg campaign_id db_name host) k = Some t' \<and> tcols t' = tcols t"
proof (cases rule: ags_to_postgis_cases[of env target_epsg source_epsg db filepath
      username password schema campaign_id db_name host])
  case (invalid msg)
  with assms show ?thesis by simp
next
  case (stopped pre e')
  with assms show ?thesis by simp
next
  case (loaded tables cid)
  show ?thesis
    using assms load_tables_tcols[where db=db and k=k and t=t and env=env and schema=schema
        and target_epsg=target_epsg and crs_transformer="snd (reprojection env source_epsg target_epsg)"
        and campaign_id=cid and tables=tables]
    by (simp add: loaded(6))
qed

lemma run_write_origin:
  assumes "e \<in> set (events (ags_to_postgis env db filepath username password target_epsg schema
       source_epsg campaign_id db_name host))"
    and "is_write e"
  shows "\<exists>tables key raw cid. AGS4_to_dataframe env filepath = Some tables \<and> (key, raw) \<in> set tables \<and>
     snd (next_campaign_id db schema) = Inr cid \<and>
     written_from env schema target_epsg (snd (reprojection env source_epsg target_epsg)) cid key raw e"
proof (cases rule: ags_to_postgis_cases[of env target_epsg source_epsg db filepath
      username password schema campaign_id db_name host])
  case (invalid msg)
  with assms(1) show ?thesis by simp
next
  case (stopped pre e')
  with assms(1) have "e \<in> set pre" by simp
  with assms(2) prefix_no_write[OF stopped(3)] show ?thesis by blast
next
  case (loaded tables cid)
  have "e \<notin> set (prelude env db filepath username password target_epsg schema source_epsg
      db_name host)"
    using assms(2) prelude_no_write by blast
  with assms(1) have "e \<in> set (events (load_tables env db schema target_epsg
        (snd (reprojection env source_epsg target_epsg)) cid tables))"
    by (simp add: loaded(6))
  from load_tables_events[OF this] obtain key raw where
    "(key, raw) \<in> set tables"
    "written_from env schema target_epsg (snd (reprojection env source_epsg target_epsg)) cid key raw e"
    by blast
  with loaded(3) loaded(5) show ?thesis by blast
qed

lemma rows_to_mem:
  "e \<in> set evs \<Longrightarrow> target e = Some k \<Longrightarrow> set (written_rows e) \<subseteq> set (rows_to k evs)"
  by (auto simp: rows_to_def)

lemma load_tables_all_written:
  "raised (load_tables env db schema target_epsg crs_transformer campaign_id tables) = None \<Longrightarrow>
   (key, raw) \<in> set tables \<Longrightarrow>
     \<exists>e. e \<in> set (events (load_tables env db schema target_epsg crs_transformer campaign_id tables)) \<and>
       written_from env schema target_epsg crs_transformer campaign_id key raw e"
proof (induction tables arbitrary: db)
  case Nil
  then show ?case by simp
next
  case (Cons kr rest)
  obtain k0 r0 where kr: "kr = (k0, r0)" by (cases kr)
  show ?case
  proof (cases rule: load_table_cases[of env db schema target_epsg crs_transformer campaign_id k0 r0])
    case (failed e')
    with Cons.prems(1) show ?thesis
      by (simp add: kr load_tables_failed del: load_tables.simps)
  next
    case (spatial df0 points gdf db')
    note L = load_tables_written[OF spatial(6), of rest]
    from Cons.prems(1) have ok: "raised (load_tables env db' schema target_epsg crs_transformer campaign_id rest) = None"
      by (simp add: kr L del: load_tables.simps)
    from Cons.prems(2) have "(key, raw) = (k0, r0) \<or> (key, raw) \<in> set rest"
      by (auto simp: kr)
    then show ?thesis
    proof
      assume "(key, raw) = (k0, r0)"
      with spatial have "written_from env schema target_epsg crs_transformer campaign_id key raw
          (ToPostgis schema (lower k0) (records gdf))"
        by (auto simp: written_from_def)
      then show ?thesis
        by (auto simp: kr L simp del: load_tables.simps)
    next
      assume "(key, raw) \<in> set rest"
      from Cons.IH[OF ok this] show ?thesis
        by (auto simp: kr L simp del: load_tables.simps)
    qed
  next
    case (plain df0 db')
    note L = load_tables_written[OF plain(4), of rest]
    from Cons.prems(1) have ok: "raised (load_tables env db' schema target_epsg crs_transformer campaign_id rest) = None"
      by (simp add: kr L del: load_tables.simps)
    from Cons.prems(2) have "(key, raw) = (k0, r0) \<or> (key, raw) \<in> set rest"
      by (auto simp: kr)
    then show ?thesis
    proof
      assume "(key, raw) = (k0, r0)"
      with plain have "written_from env schema target_epsg crs_transformer campaign_id key raw
          (ToSql schema (lower k0) (records (stamped campaign_id df0)))"
        by (auto simp: written_from_def)
      then show ?thesis
        by (auto simp: kr L simp del: load_tables.simps)
    next
      assume "(key, raw) \<in> set rest"
      from Cons.IH[OF ok this] show ?thesis
        by (auto simp: kr L simp del: load_tables.simps)
    qed
  qed
qed

lemma run_all_written:
  assumes "raised (ags_to_postgis env db filepath username password target_epsg schema
       source_epsg campaign_id db_name host) = None"
    and "AGS4_to_dataframe env filepath = Some tables"
    and "snd (next_campaign_id db schema) = Inr cid"
    and "(key, raw) \<in> set tables"
  shows "\<exists>e. e \<in> set (events (ags_to_postgis env db filepath username password target_epsg schema
       source_epsg campaign_id db_name host)) \<and>
     written_from env schema target_epsg (snd (reprojection env source_epsg target_epsg)) cid key raw e"
proof (cases rule: ags_to_postgis_cases[of env target_epsg source_epsg db filepath
      username password schema campaign_id db_name host])
  case (invalid msg)
  with assms(1) show ?thesis by simp
next
  case (stopped pre e')
  with assms(1) show ?thesis by simp
next
  case (loaded tables' cid')
  with assms(2,3) have same: "tables' = tables" "cid' = cid" by simp_all
  from assms(1) have "raised (load_tables env db schema target_epsg
        (snd (reprojection env source_epsg target_epsg)) cid tables) = None"
    by (simp add: loaded(6) same)
  from load_tables_all_written[OF this assms(4)] show ?thesis
    by (auto simp: loaded(6) same)
qed


section \<open>The concrete site, evaluated\<close>

lemma env0_sel:
  "epsg_codes env0 = [''27700'', ''4326'']"
  "from_crs env0 = (\<lambda>s t p. (fst p + 1, snd p + 2))"
  "AGS4_to_dataframe env0 =
     (\<lambda>f. if f = ''site.ags'' then Some doc0 else if f = ''mixed.ags'' then Some doc1 else None)"
  "convert_to_numeric env0 = Some"
  "connects env0 = (\<lambda>s. True)"
  "accepts env0 = (\<lambda>n t r. True)"
  "float64 env0 = (\<lambda>i. i)"
  "float_of_str env0 = (\<lambda>s. if s = ''100'' then Some 100 else None)"
  by (simp_all add: env0_def)

lemma is_epsg_env0:
  "is_epsg env0 (Some 27700)" "is_epsg env0 (Some 4326)" "\<not> is_epsg env0 (Some 99999)"
  "\<not> is_epsg env0 None"
  by (simp_all add: is_epsg_def env0_sel str_eval)

lemma transform_points_loop_map:
  "transform_points_loop points f acc = acc @ map f points"
  by (induction points arbitrary: acc) (simp_all add: transform_def)

lemma transform_point_list_map: "transform_point_list points f = map f points"
  by (simp add: transform_point_list_def transform_points_loop_map)

lemma lower_keys: "lower ''LOCA'' = ''loca''" "lower ''SAMP'' = ''samp''" "lower ''Loca'' = ''loca''"
  by (simp_all add: lower_def lower_char_def)

lemma stamped_loca0:
  "stamped cid loca0 =
     \<lparr>index_len = 1,
      cols = [(''loca_locx'', [Num 100]), (''loca_locy'', [Num 200]), (''campaign_id'', [IntC cid])]\<rparr>"
  by (simp add: stamped_def loca0_def setitem_def lower_columns_def labels_def lower_def lower_char_def)

lemma stamped_samp0:
  "stamped cid samp0 =
     \<lparr>index_len = 1, cols = [(''samp_id'', [Text ''A1'']), (''campaign_id'', [IntC cid])]\<rparr>"
  by (simp add: stamped_def samp0_def setitem_def lower_columns_def labels_def lower_def lower_char_def)

lemma records_loca0:
  "records (stamped cid loca0) =
     [[(''loca_locx'', Num 100), (''loca_locy'', Num 200), (''campaign_id'', IntC cid)]]"
  by (simp add: stamped_loca0 records_def)

lemma records_samp0:
  "records (stamped cid samp0) = [[(''samp_id'', Text ''A1''), (''campaign_id'', IntC cid)]]"
  by (simp add: stamped_samp0 records_def)

lemma geometry_loca0:
  "geometry env0 crs_transformer (stamped cid loca0) = Inr [reprojected crs_transformer (100, 10200)]"
  by (simp add: stamped_loca0 geometry_def getitem_list_def labels_def np_array_def Point_def add_int_def
      as_float_def env0_sel transform_point_list_map reprojected_def split: option.splits)

lemma geo_records_loca0:
  "geo_records (stamped cid loca0) [p] epsg =
     [[(''loca_locx'', Num 100), (''loca_locy'', Num 200), (''campaign_id'', IntC cid),
       (''geom'', Geom (fst p) (snd p) epsg)]]"
  by (simp add: records_loca0 geo_records_def)

lemma spatial_frame_loca0:
  "spatial_frame (stamped cid loca0) [p] epsg =
     Inr \<lparr>index_len = 1,
          cols = [(''loca_locx'', [Num 100]), (''loca_locy'', [Num 200]), (''campaign_id'', [IntC cid]),
                  (''geom'', [Geom (fst p) (snd p) epsg])]\<rparr>"
  by (simp add: stamped_loca0 spatial_frame_def GeoDataFrame_def set_geometry_def rename_geometry_def
      labels_def)

lemma labels_stamped_existing:
  "''campaign_id'' \<in> set (map lower (labels df0)) \<Longrightarrow> labels (stamped cid df0) = map lower (labels df0)"
  by (simp add: stamped_def labels_setitem labels_lower_columns)

lemma labels_stamped_new:
  "''campaign_id'' \<notin> set (map lower (labels df0)) \<Longrightarrow>
     labels (stamped cid df0) = map lower (labels df0) @ [''campaign_id'']"
  by (simp add: stamped_def labels_setitem labels_lower_columns)

lemma records_labels: "r \<in> set (records df) \<Longrightarrow> map fst r = labels df"
  by (auto simp: records_def labels_def)

lemma geo_records_labels:
  "r \<in> set (geo_records df points epsg) \<Longrightarrow> map fst r = labels df @ [''geom'']"
  by (auto simp: geo_records_def dest!: set_zip_leftD records_labels)

lemma spatial_frame_clean:
  assumes "''geom'' \<notin> set (labels df)" and "''geometry'' \<notin> set (labels df)"
  shows "spatial_frame df points epsg =
     Inr (df\<lparr>cols := cols df @ [(''geom'', map (\<lambda>p. Geom (fst p) (snd p) epsg) points)]\<rparr>)"
proof -
  have "filter (\<lambda>l. l = ''geometry'') (labels df) = []"
    using assms(2) by (auto simp: filter_empty_conv)
  then have g: "GeoDataFrame df = Inr df"
    by (simp add: GeoDataFrame_def)
  have l: "map (\<lambda>c. if fst c = ''geometry'' then (''geom'', snd c) else c) (cols df) = cols df"
  proof (rule map_idI)
    fix c
    assume "c \<in> set (cols df)"
    then have "fst c \<in> set (labels df)"
      by (simp add: labels_def)
    with assms(2) have "fst c \<noteq> ''geometry''"
      by metis
    then show "(if fst c = ''geometry'' then (''geom'', snd c) else c) = c"
      by simp
  qed
  show ?thesis
    using assms by (simp add: spatial_frame_def g set_geometry_def rename_geometry_def Let_def labels_def l)
qed

lemma records_spatial_clean:
  assumes "''geom'' \<notin> set (labels df)" and "''geometry'' \<notin> set (labels df)"
    and "length points = index_len df" and "spatial_frame df points epsg = Inr gdf"
  shows "records gdf = geo_records df points epsg"
proof -
  from assms(4) have gdf:
    "gdf = df\<lparr>cols := cols df @ [(''geom'', map (\<lambda>p. Geom (fst p) (snd p) epsg) points)]\<rparr>"
    by (simp add: spatial_frame_clean[OF assms(1,2)])
  show ?thesis
    using assms(3) by (simp add: gdf records_def geo_records_def list_eq_iff_nth_eq)
qed

lemma filter_labels: "filter (\<lambda>c. fst c = k) (cols df) \<noteq> [] \<Longrightarrow> k \<in> set (labels df)"
  by (auto simp: labels_def filter_empty_conv)

lemma nth_pairs_zip:
  "length xs = n \<Longrightarrow> length ys = n \<Longrightarrow> map (\<lambda>i. (xs ! i, ys ! i)) [0..<n] = zip xs ys"
  by (simp add: list_eq_iff_nth_eq)

lemma reprojected_fun: "reprojected None = (\<lambda>p. p)" "reprojected (Some f) = f"
  by (simp_all add: fun_eq_iff reprojected_def)

lemma Point_Inr_iff:
  "Point env (cx, cy) = Inr p \<longleftrightarrow> (\<exists>x y. x_of env cx x \<and> y_plus_10000 env cy y \<and> p = (x, y))"
  by (cases cx; cases cy)
    (auto simp: Point_def add_int_def as_float_def x_of_def y_plus_10000_def split: option.splits)

lemma points_loop_Inr_iff:
  "points_loop env cells acc = Inr pts \<longleftrightarrow>
     (\<exists>ps. list_all2 (\<lambda>c p. Point env c = Inr p) cells ps \<and> pts = acc @ ps)"
proof (induction cells arbitrary: acc)
  case Nil
  then show ?case by auto
next
  case (Cons c cells)
  show ?case
  proof (cases "Point env c")
    case (Inl e)
    then show ?thesis by (auto simp: list_all2_Cons1)
  next
    case (Inr p)
    then show ?thesis by (auto simp: Cons.IH list_all2_Cons1)
  qed
qed

lemma list_all2_zip_points:
  "length xc = length yc \<Longrightarrow>
     list_all2 (\<lambda>c p. Point env c = Inr p) (zip xc yc) ps \<longleftrightarrow>
       (\<exists>xs ys. list_all2 (x_of env) xc xs \<and> list_all2 (y_plus_10000 env) yc ys \<and> ps = zip xs ys)"
proof (induction xc yc arbitrary: ps rule: list_induct2)
  case Nil
  then show ?case by auto
next
  case (Cons cx xc cy yc)
  show ?case
  proof
    assume "list_all2 (\<lambda>c p. Point env c = Inr p) (zip (cx # xc) (cy # yc)) ps"
    then obtain p ps' where ps: "ps = p # ps'" and p: "Point env (cx, cy) = Inr p"
      and rest: "list_all2 (\<lambda>c p. Point env c = Inr p) (zip xc yc) ps'"
      by (auto simp: list_all2_Cons1)
    from p obtain x y where xy: "x_of env cx x" "y_plus_10000 env cy y" "p = (x, y)"
      by (auto simp: Point_Inr_iff)
    from rest obtain xs ys where r: "list_all2 (x_of env) xc xs" "list_all2 (y_plus_10000 env) yc ys"
      "ps' = zip xs ys"
      by (auto simp: Cons.IH)
    have "list_all2 (x_of env) (cx # xc) (x # xs)" "list_all2 (y_plus_10000 env) (cy # yc) (y # ys)"
      "ps = zip (x # xs) (y # ys)"
      using xy r by (simp_all add: ps)
    then show "\<exists>xs ys. list_all2 (x_of env) (cx # xc) xs \<and> list_all2 (y_plus_10000 env) (cy # yc) ys \<and>
        ps = zip xs ys"
      by blast
  next
    assume "\<exists>xs ys. list_all2 (x_of env) (cx # xc) xs \<and> list_all2 (y_plus_10000 env) (cy # yc) ys \<and>
        ps = zip xs ys"
    then obtain x xs y ys where x: "x_of env cx x" "list_all2 (x_of env) xc xs"
      and y: "y_plus_10000 env cy y" "list_all2 (y_plus_10000 env) yc ys"
      and ps: "ps = zip (x # xs) (y # ys)"
      by (auto simp: list_all2_Cons1)
    have "Point env (cx, cy) = Inr (x, y)"
      using x(1) y(1) by (auto simp: Point_Inr_iff)
    moreover have "list_all2 (\<lambda>c p. Point env c = Inr p) (zip xc yc) (zip xs ys)"
      using x(2) y(2) by (auto simp: Cons.IH)
    ultimately show "list_all2 (\<lambda>c p. Point env c = Inr p) (zip (cx # xc) (cy # yc)) ps"
      by (simp add: ps)
  qed
qed

lemma reads_Num:
  "list_all2 (x_of env) (map Num xs) xs"
  "list_all2 (y_plus_10000 env) (map Num ys) (map (\<lambda>y. y + float64 env 10000) ys)"
  by (simp_all add: x_of_def y_plus_10000_def list_all2_conv_all_nth)

lemma geometry_reads:
  assumes xcol: "filter (\<lambda>c. lower (fst c) = ''loca_locx'') (cols df0) = [(lx, xc)]"
    and ycol: "filter (\<lambda>c. lower (fst c) = ''loca_locy'') (cols df0) = [(ly, yc)]"
    and lens: "length xc = index_len df0" "length yc = index_len df0"
  shows "geometry env crs_transformer (stamped cid df0) = Inr pts \<longleftrightarrow>
     (\<exists>xs ys. list_all2 (x_of env) xc xs \<and> list_all2 (y_plus_10000 env) yc ys \<and>
        pts = map (reprojected crs_transformer) (zip xs ys))"
proof -
  let ?S = "stamped cid df0"
  have fx: "filter (\<lambda>c. fst c = ''loca_locx'') (cols ?S) = [(''loca_locx'', xc)]"
    by (simp add: other_columns_stamped xcol)
  have fy: "filter (\<lambda>c. fst c = ''loca_locy'') (cols ?S) = [(''loca_locy'', yc)]"
    by (simp add: other_columns_stamped ycol)
  have "''loca_locx'' \<in> set (labels ?S)" "''loca_locy'' \<in> set (labels ?S)"
    using fx fy by (simp_all add: filter_labels)
  then have sub: "getitem_list ?S [''loca_locx'', ''loca_locy''] =
      Inr [(''loca_locx'', xc), (''loca_locy'', yc)]"
    by (simp add: getitem_list_def fx fy)
  have arr: "np_array (index_len ?S) [(''loca_locx'', xc), (''loca_locy'', yc)] = zip xc yc"
    using lens by (simp add: np_array_def index_len_stamped nth_pairs_zip)
  have len: "length xc = length yc"
    using lens by simp
  have g: "geometry env crs_transformer ?S =
      (case points_loop env (zip xc yc) [] of
         Inl e \<Rightarrow> Inl e
       | Inr points \<Rightarrow> Inr (map (reprojected crs_transformer) points))"
    by (cases crs_transformer)
      (simp_all add: geometry_def sub arr transform_point_list_map reprojected_fun split: sum.splits)
  show ?thesis
  proof
    assume "geometry env crs_transformer ?S = Inr pts"
    then obtain points where "points_loop env (zip xc yc) [] = Inr points"
      "pts = map (reprojected crs_transformer) points"
      by (auto simp: g split: sum.splits)
    then show "\<exists>xs ys. list_all2 (x_of env) xc xs \<and> list_all2 (y_plus_10000 env) yc ys \<and>
        pts = map (reprojected crs_transformer) (zip xs ys)"
      by (auto simp: points_loop_Inr_iff list_all2_zip_points[OF len])
  next
    assume "\<exists>xs ys. list_all2 (x_of env) xc xs \<and> list_all2 (y_plus_10000 env) yc ys \<and>
        pts = map (reprojected crs_transformer) (zip xs ys)"
    then obtain xs ys where r: "list_all2 (x_of env) xc xs" "list_all2 (y_plus_10000 env) yc ys"
      and pts: "pts = map (reprojected crs_transformer) (zip xs ys)"
      by blast
    from r have "points_loop env (zip xc yc) [] = Inr (zip xs ys)"
      by (auto simp: points_loop_Inr_iff list_all2_zip_points[OF len])
    then show "geometry env crs_transformer ?S = Inr pts"
      by (simp add: g pts)
  qed
qed

lemma spatial_frame_has_geom:
  assumes "spatial_frame df points epsg = Inr gdf"
  shows "(''geom'', map (\<lambda>p. Geom (fst p) (snd p) epsg) points) \<in> set (cols gdf)"
proof -
  let ?column = "map (\<lambda>p. Geom (fst p) (snd p) epsg) points"
  let ?g = "set_geometry df points epsg"
  from assms have r: "rename_geometry ?g ''geom'' = Inr gdf"
    by (auto simp: spatial_frame_def split: sum.splits dest: GeoDataFrame_Inr)
  then have gdf: "cols gdf = map (\<lambda>c. if fst c = ''geometry'' then (''geom'', snd c) else c) (cols ?g)"
    by (auto simp: rename_geometry_def split: if_splits)
  have "(''geometry'', ?column) \<in> set (cols ?g)"
  proof (cases "''geometry'' \<in> set (labels df)")
    case True
    then obtain c where "c \<in> set (cols df)" "fst c = ''geometry''"
      by (auto simp: labels_def)
    then show ?thesis
      using True by (force simp: set_geometry_def Let_def)
  next
    case False
    then show ?thesis
      by (simp add: set_geometry_def Let_def)
  qed
  then show ?thesis
    by (force simp: gdf)
qed

lemma insert_rows_env0:
  "insert_rows env0 db k columns rows Append =
     Inr (db(k \<mapsto> (case db k of None \<Rightarrow> \<lparr>tcols = columns, trows = rows\<rparr>
                                 | Some t \<Rightarrow> t\<lparr>trows := trows t @ rows\<rparr>)))"
  by (simp add: insert_rows_def env0_sel split: option.splits)

lemma load_table_loca0:
  "events (load_table env0 db ''si'' 27700 crs_transformer cid ''LOCA'' loca0) =
     [ToPostgis ''si'' ''loca''
        [[(''loca_locx'', Num 100), (''loca_locy'', Num 200), (''campaign_id'', IntC cid),
          (''geom'', Geom (fst (reprojected crs_transformer (100, 10200)))
                          (snd (reprojected crs_transformer (100, 10200))) 27700)]]]"
  "raised (load_table env0 db ''si'' 27700 crs_transformer cid ''LOCA'' loca0) = None"
  by (simp_all add: load_table_def env0_sel geometry_loca0 spatial_frame_loca0 to_postgis_def
      insert_rows_env0 records_def lower_keys Let_def)

lemma load_table_samp0:
  "events (load_table env0 db ''si'' 27700 crs_transformer cid ''SAMP'' samp0) =
     [ToSql ''si'' ''samp'' [[(''samp_id'', Text ''A1''), (''campaign_id'', IntC cid)]]]"
  "raised (load_table env0 db ''si'' 27700 crs_transformer cid ''SAMP'' samp0) = None"
  by (simp_all add: load_table_def env0_sel to_sql_def insert_rows_env0 records_samp0 lower_keys Let_def)

lemma load_table_Loca:
  "events (load_table env0 db ''si'' 27700 crs_transformer cid ''Loca'' loca0) =
     [ToSql ''si'' ''loca''
        [[(''loca_locx'', Num 100), (''loca_locy'', Num 200), (''campaign_id'', IntC cid)]]]"
  "raised (load_table env0 db ''si'' 27700 crs_transformer cid ''Loca'' loca0) = None"
  by (simp_all add: load_table_def env0_sel to_sql_def insert_rows_env0 records_loca0 lower_keys Let_def)

lemma Point_env0:
  "Point env0 (Num 100, Num 200) = Inr (100, 10200)"
  "Point env0 (Text ''100'', Num 200) = Inr (100, 10200)"
  "Point env0 (IntC 100, IntC 200) = Inr (100, 10200)"
  "Point env0 (Text ''abc'', Num 200) = Inl (ValueError ''could not convert string to float'')"
  "Point env0 (Null, Num 200) = Inl TypeError"
  "Point env0 (Num 100, Text ''200'') = Inl TypeError"
  "Point env0 (Num 100, Null) = Inl TypeError"
  by (simp_all add: Point_def add_int_def as_float_def env0_sel)

lemma stamped_loca_text:
  "stamped cid loca_text =
     \<lparr>index_len = 1,
      cols = [(''loca_locx'', [Text ''100'']), (''loca_locy'', [Num 200]), (''campaign_id'', [IntC cid])]\<rparr>"
  by (simp add: stamped_def loca_text_def setitem_def lower_columns_def labels_def lower_def lower_char_def)

lemma geometry_loca_text:
  "geometry env0 crs_transformer (stamped cid loca_text) = Inr [reprojected crs_transformer (100, 10200)]"
  by (simp add: stamped_loca_text geometry_def getitem_list_def labels_def np_array_def Point_def
      add_int_def as_float_def env0_sel transform_point_list_map reprojected_def split: option.splits)

lemma spatial_frame_loca_text:
  "spatial_frame (stamped cid loca_text) [p] epsg =
     Inr \<lparr>index_len = 1,
          cols = [(''loca_locx'', [Text ''100'']), (''loca_locy'', [Num 200]), (''campaign_id'', [IntC cid]),
                  (''geom'', [Geom (fst p) (snd p) epsg])]\<rparr>"
  by (simp add: stamped_loca_text spatial_frame_def GeoDataFrame_def set_geometry_def rename_geometry_def
      labels_def)

lemma load_table_loca_text:
  "events (load_table env0 db ''si'' 27700 None cid ''LOCA'' loca_text) =
     [ToPostgis ''si'' ''loca''
        [[(''loca_locx'', Text ''100''), (''loca_locy'', Num 200), (''campaign_id'', IntC cid),
          (''geom'', Geom 100 10200 27700)]]]"
  by (simp add: load_table_def env0_sel geometry_loca_text spatial_frame_loca_text to_postgis_def
      insert_rows_env0 records_def lower_keys reprojected_def Let_def)

lemma load_tables_doc0:
  "events (load_tables env0 db ''si'' 27700 crs_transformer cid doc0) =
     [ToPostgis ''si'' ''loca''
        [[(''loca_locx'', Num 100), (''loca_locy'', Num 200), (''campaign_id'', IntC cid),
          (''geom'', Geom (fst (reprojected crs_transformer (100, 10200)))
                          (snd (reprojected crs_transformer (100, 10200))) 27700)]],
      ToSql ''si'' ''samp'' [[(''samp_id'', Text ''A1''), (''campaign_id'', IntC cid)]]]"
  "raised (load_tables env0 db ''si'' 27700 crs_transformer cid doc0) = None"
  by (simp_all add: doc0_def load_table_loca0 load_table_samp0)

lemma load_tables_doc1:
  "events (load_tables env0 db ''si'' 27700 crs_transformer cid doc1) =
     [ToSql ''si'' ''loca''
        [[(''loca_locx'', Num 100), (''loca_locy'', Num 200), (''campaign_id'', IntC cid)]]]"
  by (simp add: doc1_def load_table_Loca)

lemma next_campaign_id_empty:
  "next_campaign_id (Map.empty :: int store) ''si'' = ([HasTable ''si'' ''loca''], Inr 1)"
  by (simp add: next_campaign_id_def)

lemma loca7_ids: "campaign_ids (trows loca7) = [3, 7]"
  by (simp add: loca7_def campaign_ids_def)

lemma db7_loca: "db7 (''si'', ''loca'') = Some loca7"
  by (simp add: db7_def)

lemma next_campaign_id_db7:
  "next_campaign_id db7 ''si'' = ([HasTable ''si'' ''loca'', SelectMax ''si'' ''loca''], Inr 8)"
  by (simp add: next_campaign_id_def db7_loca select_max_def loca7_ids) (simp add: loca7_def)

lemma next_campaign_id_empty_loca:
  "next_campaign_id db_empty_loca ''si'' =
     ([HasTable ''si'' ''loca'', SelectMax ''si'' ''loca''], Inl TypeError)"
  by (simp add: next_campaign_id_def db_empty_loca_def select_max_def campaign_ids_def)

lemma db_string0: "db_string ''u'' ''p'' ''h'' ''d'' = ''postgresql://u:p@h/d''"
  by (simp add: db_string_def)

lemma run_site:
  assumes "next_campaign_id db ''si'' = (ev3, Inr cid)"
  shows "events (ags_to_postgis env0 db ''site.ags'' ''u'' ''p'' 27700 ''si'' None campaign_id ''d'' ''h'') =
     [ParseFile ''site.ags'', CreateEngine ''postgresql://u:p@h/d''] @ ev3 @
     [ToPostgis ''si'' ''loca''
        [[(''loca_locx'', Num 100), (''loca_locy'', Num 200), (''campaign_id'', IntC cid),
          (''geom'', Geom 100 10200 27700)]],
      ToSql ''si'' ''samp'' [[(''samp_id'', Text ''A1''), (''campaign_id'', IntC cid)]]]"
  by (simp add: ags_to_postgis_def is_epsg_env0 reprojection_def env0_sel db_string0 assms
      load_tables_doc0 reprojected_def Let_def)

lemma run_site_reprojected:
  assumes "next_campaign_id db ''si'' = (ev3, Inr cid)"
  shows "events (ags_to_postgis env0 db ''site.ags'' ''u'' ''p'' 27700 ''si'' (Some 4326) campaign_id ''d'' ''h'') =
     [FromCrs 4326 27700, ParseFile ''site.ags'', CreateEngine ''postgresql://u:p@h/d''] @ ev3 @
     [ToPostgis ''si'' ''loca''
        [[(''loca_locx'', Num 100), (''loca_locy'', Num 200), (''campaign_id'', IntC cid),
          (''geom'', Geom 101 10202 27700)]],
      ToSql ''si'' ''samp'' [[(''samp_id'', Text ''A1''), (''campaign_id'', IntC cid)]]]"
  by (simp add: ags_to_postgis_def is_epsg_env0 reprojection_def env0_sel db_string0 assms
      load_tables_doc0 reprojected_def Let_def)

lemma run_mixed:
  "events (ags_to_postgis env0 Map.empty ''mixed.ags'' ''u'' ''p'' 27700 ''si'' None None ''d'' ''h'') =
     [ParseFile ''mixed.ags'', CreateEngine ''postgresql://u:p@h/d'', HasTable ''si'' ''loca'',
      ToSql ''si'' ''loca''
        [[(''loca_locx'', Num 100), (''loca_locy'', Num 200), (''campaign_id'', IntC 1)]]]"
  by (simp add: ags_to_postgis_def is_epsg_env0 reprojection_def env0_sel db_string0
      next_campaign_id_empty load_tables_doc1 Let_def)

lemma run_site_raised:
  "raised (ags_to_postgis env0 Map.empty ''site.ags'' ''u'' ''p'' 27700 ''si'' None None ''d'' ''h'') = None"
  by (simp add: ags_to_postgis_def is_epsg_env0 reprojection_def env0_sel db_string0
      next_campaign_id_empty load_tables_doc0 Let_def)

lemma run_mixed_raised:
  "raised (ags_to_postgis env0 Map.empty ''mixed.ags'' ''u'' ''p'' 27700 ''si'' None None ''d'' ''h'') = None"
  by (simp add: ags_to_postgis_def is_epsg_env0 reprojection_def env0_sel db_string0
      next_campaign_id_empty doc1_def load_table_Loca Let_def)

section \<open>Claims\<close>

text \<open>
  C1. A supplied campaign id is meant to be the one stamped on every table. The code does
  not do this: on a store with no location layer, with the campaign id 42 supplied, the
  rows are written with campaign id 1; on a store whose location layer holds the ids 3 and
  7, they are written with 8.
\<close>

theorem C1_supplied_campaign_id_is_ignored:
  "events (ags_to_postgis env0 Map.empty ''site.ags'' ''u'' ''p'' 27700 ''si'' None (Some 42) ''d'' ''h'') =
     [ParseFile ''site.ags'', CreateEngine ''postgresql://u:p@h/d'', HasTable ''si'' ''loca'',
      ToPostgis ''si'' ''loca''
        [[(''loca_locx'', Num 100), (''loca_locy'', Num 200), (''campaign_id'', IntC 1),
          (''geom'', Geom 100 10200 27700)]],
      ToSql ''si'' ''samp'' [[(''samp_id'', Text ''A1''), (''campaign_id'', IntC 1)]]] \<and>
   events (ags_to_postgis env0 db7 ''site.ags'' ''u'' ''p'' 27700 ''si'' None (Some 42) ''d'' ''h'') =
     [ParseFile ''site.ags'', CreateEngine ''postgresql://u:p@h/d'', HasTable ''si'' ''loca'',
      SelectMax ''si'' ''loca'',
      ToPostgis ''si'' ''loca''
        [[(''loca_locx'', Num 100), (''loca_locy'', Num 200), (''campaign_id'', IntC 8),
          (''geom'', Geom 100 10200 27700)]],
      ToSql ''si'' ''samp'' [[(''samp_id'', Text ''A1''), (''campaign_id'', IntC 8)]]]"
  by (simp add: run_site[OF next_campaign_id_empty] run_site[OF next_campaign_id_db7])

text \<open>
  C2. A location layer that exists and has no row is meant to give a defined campaign id.
  The code does not do this: the maximum is None, the addition raises TypeError after the
  parse and the connection, and nothing is written.
\<close>

theorem C2_empty_location_layer_raises:
  "ags_to_postgis env0 db_empty_loca ''site.ags'' ''u'' ''p'' 27700 ''si'' None None ''d'' ''h'' =
     \<lparr>db_after = db_empty_loca,
      events = [ParseFile ''site.ags'', CreateEngine ''postgresql://u:p@h/d'', HasTable ''si'' ''loca'',
                SelectMax ''si'' ''loca''],
      raised = Some TypeError\<rparr>"
  by (simp add: ags_to_postgis_def is_epsg_env0 reprojection_def env0_sel db_string0
      next_campaign_id_empty_loca Let_def)

text \<open>
  C3. A target code that the registry does not know, or a source code that is given and
  that the registry does not know, makes the import raise ValueError before anything else:
  no event has happened (no transformer, no parse, no connection, no write) and the store
  is unchanged.
\<close>

theorem C3_invalid_epsg_raises_before_any_work:
  assumes "\<not> is_epsg env (Some target_epsg) \<or> (\<exists>s. source_epsg = Some s \<and> \<not> is_epsg env (Some s))"
  shows "\<exists>msg. ags_to_postgis env db filepath username password target_epsg schema source_epsg
           campaign_id db_name host =
         \<lparr>db_after = db, events = [], raised = Some (ValueError msg)\<rparr>"
proof (cases rule: ags_to_postgis_cases[of env target_epsg source_epsg db filepath username password
      schema campaign_id db_name host])
  case (invalid msg)
  then show ?thesis by blast
next
  case (stopped pre e)
  with assms show ?thesis by auto
next
  case (loaded tables cid)
  with assms show ?thesis by auto
qed

theorem C3_witness:
  "\<not> is_epsg env0 (Some 99999) \<and>
   (\<exists>msg. ags_to_postgis env0 db7 ''site.ags'' ''u'' ''p'' 99999 ''si'' None None ''d'' ''h'' =
      \<lparr>db_after = db7, events = [], raised = Some (ValueError msg)\<rparr>) \<and>
   (\<exists>msg. ags_to_postgis env0 db7 ''site.ags'' ''u'' ''p'' 27700 ''si'' (Some 99999) None ''d'' ''h'' =
      \<lparr>db_after = db7, events = [], raised = Some (ValueError msg)\<rparr>)"
  using C3_invalid_epsg_raises_before_any_work[of env0 99999 None db7 "''site.ags''" "''u''" "''p''"
      "''si''" None "''d''" "''h''"]
    C3_invalid_epsg_raises_before_any_work[of env0 27700 "Some 99999" db7 "''site.ags''" "''u''" "''p''"
      "''si''" None "''d''" "''h''"]
  by (simp add: is_epsg_env0)

text \<open>
  C4. With no campaign id supplied: when the schema has no location layer, the id is 1;
  when the location layer has a campaign id column that holds at least one id, the id is
  the greatest of them plus 1. That id is the one every written row carries.
\<close>

theorem C4_campaign_id_from_store:
  "(db (schema, ''loca'') = None \<longrightarrow>
      snd (next_campaign_id db schema) = Inr 1 \<and>
      (\<forall>e \<in> set (events (ags_to_postgis env db filepath username password target_epsg schema
          source_epsg None db_name host)).
         \<forall>r \<in> set (written_rows e). carries 1 r)) \<and>
   (\<forall>t. db (schema, ''loca'') = Some t \<and> ''campaign_id'' \<in> set (tcols t) \<and>
        campaign_ids (trows t) \<noteq> [] \<longrightarrow>
      snd (next_campaign_id db schema) = Inr (Max (set (campaign_ids (trows t))) + 1) \<and>
      (\<forall>e \<in> set (events (ags_to_postgis env db filepath username password target_epsg schema
          source_epsg None db_name host)).
         \<forall>r \<in> set (written_rows e). carries (Max (set (campaign_ids (trows t))) + 1) r))"
  using next_campaign_id_absent[of db schema] next_campaign_id_present[of db schema]
    run_carries[of db schema _ _ env filepath username password target_epsg source_epsg None db_name host]
  by blast

theorem C4_witness:
  "db7 (''si'', ''loca'') = Some loca7 \<and> campaign_ids (trows loca7) = [3, 7] \<and>
   snd (next_campaign_id db7 ''si'') = Inr 8 \<and>
   ToSql ''si'' ''samp'' [[(''samp_id'', Text ''A1''), (''campaign_id'', IntC 8)]] \<in>
     set (events (ags_to_postgis env0 db7 ''site.ags'' ''u'' ''p'' 27700 ''si'' None None ''d'' ''h'')) \<and>
   carries 8 [(''samp_id'', Text ''A1''), (''campaign_id'', IntC 8) :: string \<times> int cell] \<and>
   carries 8 [(''loca_locx'', Num 100), (''loca_locy'', Num 200), (''campaign_id'', IntC 8),
              (''geom'', Geom 100 10200 27700) :: string \<times> int cell] \<and>
   snd (next_campaign_id (Map.empty :: int store) ''si'') = Inr 1 \<and>
   ToSql ''si'' ''samp'' [[(''samp_id'', Text ''A1''), (''campaign_id'', IntC 1)]] \<in>
     set (events (ags_to_postgis env0 Map.empty ''site.ags'' ''u'' ''p'' 27700 ''si'' None None ''d'' ''h'')) \<and>
   carries 1 [(''samp_id'', Text ''A1''), (''campaign_id'', IntC 1) :: string \<times> int cell]"
proof -
  have ids: "''campaign_id'' \<in> set (tcols loca7)" "Max (set (campaign_ids (trows loca7))) = 7"
    by (simp_all add: loca7_ids) (simp add: loca7_def)
  show ?thesis
    using C4_campaign_id_from_store[of db7 "''si''" env0 "''site.ags''" "''u''" "''p''" 27700 None
        "''d''" "''h''"]
      C4_campaign_id_from_store[of Map.empty "''si''" env0 "''site.ags''" "''u''" "''p''" 27700 None
        "''d''" "''h''"]
    by (simp add: db7_loca loca7_ids ids run_site[OF next_campaign_id_db7]
        run_site[OF next_campaign_id_empty])
qed

text \<open>
  C5. For the table keyed \<^verbatim>\<open>LOCA\<close>, with one X column and one Y column: when both hold
  floats, the point of each row is (X, Y + 10000). In general the first coordinate of a
  point is what the X cell holds, as a float (a float as it is, an int converted, a
  numeric string parsed), with nothing added, and the second is what the Y cell holds
  plus 10000. The points are built whenever the cells give these coordinates, and every
  list of points the code builds has this form. The transformer, when there is one, is
  applied to that point, so the offset comes before reprojection and with or without it.
  These points are the column \<^verbatim>\<open>geom\<close> of the frame that is written; when no column of
  the table is already called \<^verbatim>\<open>geom\<close> or \<^verbatim>\<open>geometry\<close>, each written row is the row
  of the table followed by its point.
\<close>

theorem C5_point_is_x_and_y_plus_10000:
  assumes "convert_to_numeric env raw = Some df0"
    and "filter (\<lambda>c. lower (fst c) = ''loca_locx'') (cols df0) = [(lx, xc)]"
    and "filter (\<lambda>c. lower (fst c) = ''loca_locy'') (cols df0) = [(ly, yc)]"
    and "length xc = index_len df0" and "length yc = index_len df0"
  shows "(xc = map Num xs \<and> yc = map Num ys \<longrightarrow>
            geometry env None (stamped campaign_id df0) =
              Inr (map2 (\<lambda>x y. (x, y + float64 env 10000)) xs ys) \<and>
            geometry env (Some f) (stamped campaign_id df0) =
              Inr (map f (map2 (\<lambda>x y. (x, y + float64 env 10000)) xs ys))) \<and>
         (list_all2 (x_of env) xc us \<and> list_all2 (y_plus_10000 env) yc vs \<longrightarrow>
            geometry env None (stamped campaign_id df0) = Inr (zip us vs) \<and>
            geometry env (Some f) (stamped campaign_id df0) = Inr (map f (zip us vs))) \<and>
         (\<forall>pts. geometry env crs_transformer (stamped campaign_id df0) = Inr pts \<longrightarrow>
            (\<exists>us vs. list_all2 (x_of env) xc us \<and> list_all2 (y_plus_10000 env) yc vs \<and>
               pts = map (reprojected crs_transformer) (zip us vs))) \<and>
         (\<forall>e \<in> set (events (load_table env db schema target_epsg crs_transformer campaign_id ''LOCA'' raw)).
            \<exists>us vs gdf.
              list_all2 (x_of env) xc us \<and> list_all2 (y_plus_10000 env) yc vs \<and>
              spatial_frame (stamped campaign_id df0)
                (map (reprojected crs_transformer) (zip us vs)) target_epsg = Inr gdf \<and>
              (''geom'', map (\<lambda>p. Geom (fst p) (snd p) target_epsg)
                 (map (reprojected crs_transformer) (zip us vs))) \<in> set (cols gdf) \<and>
              e = ToPostgis schema ''loca'' (records gdf) \<and>
              (''geom'' \<notin> set (labels (stamped campaign_id df0)) \<and>
               ''geometry'' \<notin> set (labels (stamped campaign_id df0)) \<longrightarrow>
                 records gdf =
                   geo_records (stamped campaign_id df0)
                     (map (reprojected crs_transformer) (zip us vs)) target_epsg))"
proof -
  note reads = geometry_reads[OF assms(2-5), of env _ campaign_id]
  have general: "geometry env tr (stamped campaign_id df0) = Inr (map (reprojected tr) (zip us' vs'))"
    if "list_all2 (x_of env) xc us'" "list_all2 (y_plus_10000 env) yc vs'" for tr us' vs'
    using that reads[of tr "map (reprojected tr) (zip us' vs')"] by blast
  have 1: "xc = map Num xs \<and> yc = map Num ys \<longrightarrow>
      geometry env None (stamped campaign_id df0) =
        Inr (map2 (\<lambda>x y. (x, y + float64 env 10000)) xs ys) \<and>
      geometry env (Some f) (stamped campaign_id df0) =
        Inr (map f (map2 (\<lambda>x y. (x, y + float64 env 10000)) xs ys))"
  proof
    assume c: "xc = map Num xs \<and> yc = map Num ys"
    have z: "zip xs (map (\<lambda>y. y + float64 env 10000) ys) = map2 (\<lambda>x y. (x, y + float64 env 10000)) xs ys"
      by (simp add: zip_map2)
    from c have r: "list_all2 (x_of env) xc xs"
      "list_all2 (y_plus_10000 env) yc (map (\<lambda>y. y + float64 env 10000) ys)"
      by (simp_all add: reads_Num)
    show "geometry env None (stamped campaign_id df0) =
        Inr (map2 (\<lambda>x y. (x, y + float64 env 10000)) xs ys) \<and>
      geometry env (Some f) (stamped campaign_id df0) =
        Inr (map f (map2 (\<lambda>x y. (x, y + float64 env 10000)) xs ys))"
      using general[OF r, of None] general[OF r, of "Some f"]
      by (simp add: z reprojected_fun)
  qed
  have 2: "list_all2 (x_of env) xc us \<and> list_all2 (y_plus_10000 env) yc vs \<longrightarrow>
      geometry env None (stamped campaign_id df0) = Inr (zip us vs) \<and>
      geometry env (Some f) (stamped campaign_id df0) = Inr (map f (zip us vs))"
  proof
    assume "list_all2 (x_of env) xc us \<and> list_all2 (y_plus_10000 env) yc vs"
    then have r: "list_all2 (x_of env) xc us" "list_all2 (y_plus_10000 env) yc vs"
      by simp_all
    show "geometry env None (stamped campaign_id df0) = Inr (zip us vs) \<and>
      geometry env (Some f) (stamped campaign_id df0) = Inr (map f (zip us vs))"
      using general[OF r, of None] general[OF r, of "Some f"]
      by (simp add: reprojected_fun)
  qed
  have 3: "\<forall>pts. geometry env crs_transformer (stamped campaign_id df0) = Inr pts \<longrightarrow>
      (\<exists>us vs. list_all2 (x_of env) xc us \<and> list_all2 (y_plus_10000 env) yc vs \<and>
         pts = map (reprojected crs_transformer) (zip us vs))"
    using reads[of crs_transformer] by blast
  have 4: "\<forall>e \<in> set (events (load_table env db schema target_epsg crs_transformer campaign_id ''LOCA'' raw)).
      \<exists>us vs gdf.
        list_all2 (x_of env) xc us \<and> list_all2 (y_plus_10000 env) yc vs \<and>
        spatial_frame (stamped campaign_id df0)
          (map (reprojected crs_transformer) (zip us vs)) target_epsg = Inr gdf \<and>
        (''geom'', map (\<lambda>p. Geom (fst p) (snd p) target_epsg)
           (map (reprojected crs_transformer) (zip us vs))) \<in> set (cols gdf) \<and>
        e = ToPostgis schema ''loca'' (records gdf) \<and>
        (''geom'' \<notin> set (labels (stamped campaign_id df0)) \<and>
         ''geometry'' \<notin> set (labels (stamped campaign_id df0)) \<longrightarrow>
           records gdf =
             geo_records (stamped campaign_id df0)
               (map (reprojected crs_transformer) (zip us vs)) target_epsg)"
  proof
    fix e
    assume e: "e \<in> set (events (load_table env db schema target_epsg crs_transformer campaign_id ''LOCA'' raw))"
    show "\<exists>us vs gdf.
        list_all2 (x_of env) xc us \<and> list_all2 (y_plus_10000 env) yc vs \<and>
        spatial_frame (stamped campaign_id df0)
          (map (reprojected crs_transformer) (zip us vs)) target_epsg = Inr gdf \<and>
        (''geom'', map (\<lambda>p. Geom (fst p) (snd p) target_epsg)
           (map (reprojected crs_transformer) (zip us vs))) \<in> set (cols gdf) \<and>
        e = ToPostgis schema ''loca'' (records gdf) \<and>
        (''geom'' \<notin> set (labels (stamped campaign_id df0)) \<and>
         ''geometry'' \<notin> set (labels (stamped campaign_id df0)) \<longrightarrow>
           records gdf =
             geo_records (stamped campaign_id df0)
               (map (reprojected crs_transformer) (zip us vs)) target_epsg)"
    proof (cases rule: load_table_cases[of env db schema target_epsg crs_transformer campaign_id "''LOCA''" raw])
      case (failed e')
      with e show ?thesis by simp
    next
      case (spatial df0' points gdf db')
      with assms(1) have same: "df0' = df0" by simp
      from spatial(3) obtain us' vs' where r: "list_all2 (x_of env) xc us'"
        "list_all2 (y_plus_10000 env) yc vs'"
        and pts: "points = map (reprojected crs_transformer) (zip us' vs')"
        using reads[of crs_transformer points] by (auto simp: same)
      let ?pts = "map (reprojected crs_transformer) (zip us' vs')"
      have len: "length ?pts = index_len (stamped campaign_id df0)"
        using r assms(4,5) by (simp add: index_len_stamped list_all2_lengthD[symmetric])
      have a: "spatial_frame (stamped campaign_id df0) ?pts target_epsg = Inr gdf"
        using spatial(4) by (simp add: same pts)
      have b: "(''geom'', map (\<lambda>p. Geom (fst p) (snd p) target_epsg) ?pts) \<in> set (cols gdf)"
        by (rule spatial_frame_has_geom[OF a])
      have c: "e = ToPostgis schema ''loca'' (records gdf)"
        using e spatial(6) by (simp add: lower_keys)
      have d: "''geom'' \<notin> set (labels (stamped campaign_id df0)) \<and>
         ''geometry'' \<notin> set (labels (stamped campaign_id df0)) \<longrightarrow>
           records gdf = geo_records (stamped campaign_id df0) ?pts target_epsg"
        using records_spatial_clean[OF _ _ len a] by blast
      show ?thesis
        by (intro exI[of _ us'] exI[of _ vs'] exI[of _ gdf] conjI) (rule r a b c d)+
    next
      case (plain df0' db')
      then show ?thesis by simp
    qed
  qed
  from 1 2 3 4 show ?thesis by (intro conjI)
qed


theorem C5_witness:
  "geometry env0 None (stamped 1 loca0) = Inr [(100, 10200)] \<and>
   geometry env0 (Some (from_crs env0 4326 27700)) (stamped 1 loca0) = Inr [(101, 10202)] \<and>
   x_of env0 (Text ''100'') 100 \<and> y_plus_10000 env0 (Num 200) 10200 \<and>
   geometry env0 None (stamped 1 loca_text) = Inr [(100, 10200)] \<and>
   geometry env0 (Some (from_crs env0 4326 27700)) (stamped 1 loca_text) = Inr [(101, 10202)] \<and>
   events (load_table env0 Map.empty ''si'' 27700 None 1 ''LOCA'' loca_text) =
     [ToPostgis ''si'' ''loca''
        [[(''loca_locx'', Text ''100''), (''loca_locy'', Num 200), (''campaign_id'', IntC 1),
          (''geom'', Geom 100 10200 27700)]]] \<and>
   (\<exists>gdf. spatial_frame (stamped 1 loca_text) [(100, 10200)] 27700 = Inr gdf \<and>
      (''geom'', [Geom 100 10200 27700]) \<in> set (cols gdf) \<and>
      ToPostgis ''si'' ''loca''
        [[(''loca_locx'', Text ''100''), (''loca_locy'', Num 200), (''campaign_id'', IntC 1),
          (''geom'', Geom 100 10200 27700)]] = ToPostgis ''si'' ''loca'' (records gdf) \<and>
      records gdf = geo_records (stamped 1 loca_text) [(100, 10200)] 27700)"
proof -
  have h0: "convert_to_numeric env0 loca0 = Some loca0"
    "filter (\<lambda>c. lower (fst c) = ''loca_locx'') (cols loca0) = [(''LOCA_LOCX'', [Num 100])]"
    "filter (\<lambda>c. lower (fst c) = ''loca_locy'') (cols loca0) = [(''LOCA_LOCY'', [Num 200])]"
    "length [Num 100 :: int cell] = index_len loca0" "length [Num 200 :: int cell] = index_len loca0"
    by (simp_all add: env0_sel loca0_def lower_def lower_char_def)
  have h1: "convert_to_numeric env0 loca_text = Some loca_text"
    "filter (\<lambda>c. lower (fst c) = ''loca_locx'') (cols loca_text) = [(''LOCA_LOCX'', [Text ''100''])]"
    "filter (\<lambda>c. lower (fst c) = ''loca_locy'') (cols loca_text) = [(''LOCA_LOCY'', [Num 200])]"
    "length [Text ''100'' :: int cell] = index_len loca_text"
    "length [Num 200 :: int cell] = index_len loca_text"
    by (simp_all add: env0_sel loca_text_def lower_def lower_char_def)
  have rd: "x_of env0 (Text ''100'') 100" "y_plus_10000 env0 (Num 200) 10200"
    by (simp_all add: x_of_def y_plus_10000_def env0_sel)
  have ev: "events (load_table env0 Map.empty ''si'' 27700 None 1 ''LOCA'' loca_text) =
     [ToPostgis ''si'' ''loca''
        [[(''loca_locx'', Text ''100''), (''loca_locy'', Num 200), (''campaign_id'', IntC 1),
          (''geom'', Geom 100 10200 27700)]]]"
    by (simp add: load_table_loca_text)
  have clean: "''geom'' \<notin> set (labels (stamped 1 loca_text))"
    "''geometry'' \<notin> set (labels (stamped 1 loca_text))"
    by (simp_all add: stamped_loca_text labels_def)
  have one: "list_all2 (x_of env0) [Text ''100''] us \<longleftrightarrow> us = [100]"
    "list_all2 (y_plus_10000 env0) [Num 200] vs \<longleftrightarrow> vs = [10200]" for us vs :: "int list"
    by (auto simp: list_all2_Cons1 x_of_def y_plus_10000_def env0_sel)
  note T0 = C5_point_is_x_and_y_plus_10000[OF h0, of "[100]" "[200]" 1 "from_crs env0 4326 27700"
        "[100]" "[10200]" None Map.empty "''si''" 27700]
  note T1 = C5_point_is_x_and_y_plus_10000[OF h1, of "[]" "[]" 1 "from_crs env0 4326 27700"
        "[100]" "[10200]" None Map.empty "''si''" 27700]
  have a: "geometry env0 None (stamped 1 loca0) = Inr [(100, 10200)] \<and>
      geometry env0 (Some (from_crs env0 4326 27700)) (stamped 1 loca0) = Inr [(101, 10202)]"
    using T0[THEN conjunct1] by (simp add: env0_sel)
  have b: "geometry env0 None (stamped 1 loca_text) = Inr [(100, 10200)] \<and>
      geometry env0 (Some (from_crs env0 4326 27700)) (stamped 1 loca_text) = Inr [(101, 10202)]"
    using T1[THEN conjunct2, THEN conjunct1] by (simp add: env0_sel rd)
  let ?e = "ToPostgis ''si'' ''loca''
        [[(''loca_locx'', Text ''100''), (''loca_locy'', Num 200), (''campaign_id'', IntC 1),
          (''geom'', Geom 100 10200 27700)]] :: int event"
  have mem: "?e \<in> set (events (load_table env0 Map.empty ''si'' 27700 None 1 ''LOCA'' loca_text))"
    by (simp add: ev)
  from T1[THEN conjunct2, THEN conjunct2, THEN conjunct2, THEN bspec, OF mem]
  obtain us vs gdf where r: "list_all2 (x_of env0) [Text ''100''] us"
      "list_all2 (y_plus_10000 env0) [Num 200] vs"
    and g: "spatial_frame (stamped 1 loca_text) (map (reprojected None) (zip us vs)) 27700 = Inr gdf"
      "(''geom'', map (\<lambda>p. Geom (fst p) (snd p) 27700) (map (reprojected None) (zip us vs))) \<in> set (cols gdf)"
      "?e = ToPostgis ''si'' ''loca'' (records gdf)"
      "''geom'' \<notin> set (labels (stamped 1 loca_text)) \<and>
       ''geometry'' \<notin> set (labels (stamped 1 loca_text)) \<longrightarrow>
         records gdf = geo_records (stamped 1 loca_text) (map (reprojected None) (zip us vs)) 27700"
    by blast
  from r have uv: "us = [100]" "vs = [10200]"
    by (simp_all add: one)
  have c: "\<exists>gdf. spatial_frame (stamped 1 loca_text) [(100, 10200)] 27700 = Inr gdf \<and>
      (''geom'', [Geom 100 10200 27700]) \<in> set (cols gdf) \<and>
      ?e = ToPostgis ''si'' ''loca'' (records gdf) \<and>
      records gdf = geo_records (stamped 1 loca_text) [(100, 10200)] 27700"
    using g clean by (intro exI[of _ gdf]) (simp add: uv reprojected_def)
  from a b rd ev c show ?thesis by (intro conjI) simp_all
qed

text \<open>
  C6. In every run the campaign id is resolved at most once, and exactly once before the
  first write: the events split into a part with no write, which holds the one look for
  the location layer, and a part of writes only. There is one campaign id, the one resolved
  from the store, that every row of every write carries, whether the write is a spatial
  layer or an attribute table.
\<close>

theorem C6_one_campaign_id_per_run:
  "\<exists>pre ws cid.
     events (ags_to_postgis env db filepath username password target_epsg schema source_epsg
       campaign_id db_name host) = pre @ ws \<and>
     (\<forall>e \<in> set pre. \<not> is_write e) \<and>
     (\<forall>e \<in> set ws. is_write e \<and> \<not> is_resolve e) \<and>
     length (filter is_resolve pre) \<le> 1 \<and>
     (ws \<noteq> [] \<longrightarrow> filter is_resolve pre = [HasTable schema ''loca''] \<and>
        snd (next_campaign_id db schema) = Inr cid) \<and>
     (\<forall>e \<in> set ws. \<forall>r \<in> set (written_rows e). carries cid r)"
proof (cases rule: ags_to_postgis_cases[of env target_epsg source_epsg db filepath username password
      schema campaign_id db_name host])
  case (invalid msg)
  then show ?thesis
    by (intro exI[of _ "[]"] exI[of _ "0"]) simp
next
  case (stopped pre e')
  have "events (ags_to_postgis env db filepath username password target_epsg schema source_epsg
       campaign_id db_name host) = pre @ []"
    using stopped(4) by simp
  moreover have "\<forall>e \<in> set pre. \<not> is_write e"
    using prefix_no_write[OF stopped(3)] by blast
  moreover have "length (filter is_resolve pre) \<le> 1"
    by (rule prefix_resolve[OF stopped(3)])
  ultimately show ?thesis
    by (intro exI[of _ pre] exI[of _ "[]"] exI[of _ "0"]) simp
next
  case (loaded tables cid)
  let ?pre = "prelude env db filepath username password target_epsg schema source_epsg db_name host"
  let ?ws = "events (load_tables env db schema target_epsg
      (snd (reprojection env source_epsg target_epsg)) cid tables)"
  have "events (ags_to_postgis env db filepath username password target_epsg schema source_epsg
       campaign_id db_name host) = ?pre @ ?ws"
    using loaded(6) by simp
  moreover have "\<forall>e \<in> set ?pre. \<not> is_write e"
    using prelude_no_write by blast
  moreover have "\<forall>e \<in> set ?ws. is_write e \<and> \<not> is_resolve e"
    using load_tables_writes write_not_resolve by blast
  moreover have "filter is_resolve ?pre = [HasTable schema ''loca'']"
    by (rule prelude_resolve)
  moreover have "\<forall>e \<in> set ?ws. \<forall>r \<in> set (written_rows e). carries cid r"
    using load_tables_carries by blast
  ultimately show ?thesis
    using loaded(5) by (intro exI[of _ ?pre] exI[of _ ?ws] exI[of _ cid]) simp
qed

theorem C6_witness:
  "(\<exists>pre ws cid.
     events (ags_to_postgis env0 db7 ''site.ags'' ''u'' ''p'' 27700 ''si'' None None ''d'' ''h'') = pre @ ws \<and>
     (\<forall>e \<in> set pre. \<not> is_write e) \<and>
     (\<forall>e \<in> set ws. is_write e \<and> \<not> is_resolve e) \<and>
     length (filter is_resolve pre) \<le> 1 \<and>
     (ws \<noteq> [] \<longrightarrow> filter is_resolve pre = [HasTable ''si'' ''loca''] \<and>
        snd (next_campaign_id db7 ''si'') = Inr cid) \<and>
     (\<forall>e \<in> set ws. \<forall>r \<in> set (written_rows e). carries cid r)) \<and>
   events (ags_to_postgis env0 db7 ''site.ags'' ''u'' ''p'' 27700 ''si'' None None ''d'' ''h'') =
     [ParseFile ''site.ags'', CreateEngine ''postgresql://u:p@h/d'', HasTable ''si'' ''loca'',
      SelectMax ''si'' ''loca'',
      ToPostgis ''si'' ''loca''
        [[(''loca_locx'', Num 100), (''loca_locy'', Num 200), (''campaign_id'', IntC 8),
          (''geom'', Geom 100 10200 27700)]],
      ToSql ''si'' ''samp'' [[(''samp_id'', Text ''A1''), (''campaign_id'', IntC 8)]]]"
proof (rule conjI)
  show "\<exists>pre ws cid.
     events (ags_to_postgis env0 db7 ''site.ags'' ''u'' ''p'' 27700 ''si'' None None ''d'' ''h'') = pre @ ws \<and>
     (\<forall>e \<in> set pre. \<not> is_write e) \<and>
     (\<forall>e \<in> set ws. is_write e \<and> \<not> is_resolve e) \<and>
     length (filter is_resolve pre) \<le> 1 \<and>
     (ws \<noteq> [] \<longrightarrow> filter is_resolve pre = [HasTable ''si'' ''loca''] \<and>
        snd (next_campaign_id db7 ''si'') = Inr cid) \<and>
     (\<forall>e \<in> set ws. \<forall>r \<in> set (written_rows e). carries cid r)"
    by (rule C6_one_campaign_id_per_run)
  show "events (ags_to_postgis env0 db7 ''site.ags'' ''u'' ''p'' 27700 ''si'' None None ''d'' ''h'') =
     [ParseFile ''site.ags'', CreateEngine ''postgresql://u:p@h/d'', HasTable ''si'' ''loca'',
      SelectMax ''si'' ''loca'',
      ToPostgis ''si'' ''loca''
        [[(''loca_locx'', Num 100), (''loca_locy'', Num 200), (''campaign_id'', IntC 8),
          (''geom'', Geom 100 10200 27700)]],
      ToSql ''si'' ''samp'' [[(''samp_id'', Text ''A1''), (''campaign_id'', IntC 8)]]]"
    by (simp add: run_site[OF next_campaign_id_db7])
qed

text \<open>
  C7. When the source code equals the target code, no transformer is built, and the run
  writes the same tables, with the same geometry, as the run with no source code: the store
  afterwards and the events are the same, and one run raises exactly when the other does.
  When the code is valid the two runs are equal altogether. In any run, a transformer is
  built only from a source code that is given and differs from the target code.
\<close>

theorem C7_same_epsg_is_no_source:
  "db_after (ags_to_postgis env db filepath username password target_epsg schema (Some target_epsg)
      campaign_id db_name host) =
   db_after (ags_to_postgis env db filepath username password target_epsg schema None
      campaign_id db_name host) \<and>
   events (ags_to_postgis env db filepath username password target_epsg schema (Some target_epsg)
      campaign_id db_name host) =
   events (ags_to_postgis env db filepath username password target_epsg schema None
      campaign_id db_name host) \<and>
   (raised (ags_to_postgis env db filepath username password target_epsg schema (Some target_epsg)
      campaign_id db_name host) = None \<longleftrightarrow>
    raised (ags_to_postgis env db filepath username password target_epsg schema None
      campaign_id db_name host) = None) \<and>
   (is_epsg env (Some target_epsg) \<longrightarrow>
      ags_to_postgis env db filepath username password target_epsg schema (Some target_epsg)
        campaign_id db_name host =
      ags_to_postgis env db filepath username password target_epsg schema None
        campaign_id db_name host) \<and>
   (\<forall>s t. FromCrs s t \<notin> set (events (ags_to_postgis env db filepath username password target_epsg
      schema (Some target_epsg) campaign_id db_name host))) \<and>
   (\<forall>s t. FromCrs s t \<in> set (events (ags_to_postgis env db filepath username password target_epsg
      schema source_epsg campaign_id db_name host)) \<longrightarrow>
      source_epsg = Some s \<and> s \<noteq> target_epsg \<and> t = target_epsg)"
proof (cases "is_epsg env (Some target_epsg)")
  case True
  have "\<forall>s t. FromCrs s t \<notin> set (events (ags_to_postgis env db filepath username password target_epsg
      schema (Some target_epsg) campaign_id db_name host))"
    using run_FromCrs[of _ _ env db filepath username password target_epsg schema "Some target_epsg"
        campaign_id db_name host] by blast
  then show ?thesis
    using same_epsg_run[OF True, of db filepath username password schema campaign_id db_name host]
      run_FromCrs[of _ _ env db filepath username password target_epsg schema source_epsg
        campaign_id db_name host]
    by auto
next
  case False
  show ?thesis
    using False run_FromCrs[of _ _ env db filepath username password target_epsg schema source_epsg
        campaign_id db_name host]
    by (auto simp: same_epsg_invalid[OF False])
qed

theorem C7_witness:
  "is_epsg env0 (Some 27700) \<and>
   ags_to_postgis env0 Map.empty ''site.ags'' ''u'' ''p'' 27700 ''si'' (Some 27700) None ''d'' ''h'' =
   ags_to_postgis env0 Map.empty ''site.ags'' ''u'' ''p'' 27700 ''si'' None None ''d'' ''h'' \<and>
   FromCrs 4326 27700 \<in> set (events
     (ags_to_postgis env0 Map.empty ''site.ags'' ''u'' ''p'' 27700 ''si'' (Some 4326) None ''d'' ''h'')) \<and>
   (4326::int) \<noteq> 27700"
  using C7_same_epsg_is_no_source[of env0 Map.empty "''site.ags''" "''u''" "''p''" 27700 "''si''" None
      "''d''" "''h''" "Some 4326"]
  by (simp add: is_epsg_env0 run_site_reprojected[OF next_campaign_id_empty])

text \<open>
  C8. Every write of a run is an append to the table named by a lower-cased key of the
  document. For every table of the store, the rows it holds after the run are the rows
  it held before, in order, followed by the rows the run wrote to it; a table that existed
  still exists, with the same columns.
\<close>

theorem C8_writes_append:
  "rows_in (db_after (ags_to_postgis env db filepath username password target_epsg schema
       source_epsg campaign_id db_name host)) k =
     rows_in db k @
     rows_to k (events (ags_to_postgis env db filepath username password target_epsg schema
       source_epsg campaign_id db_name host)) \<and>
   (\<forall>t. db k = Some t \<longrightarrow>
      (\<exists>t'. db_after (ags_to_postgis env db filepath username password target_epsg schema
           source_epsg campaign_id db_name host) k = Some t' \<and>
         tcols t' = tcols t \<and>
         trows t' = trows t @
           rows_to k (events (ags_to_postgis env db filepath username password target_epsg schema
             source_epsg campaign_id db_name host)))) \<and>
   (\<forall>e \<in> set (events (ags_to_postgis env db filepath username password target_epsg schema
        source_epsg campaign_id db_name host)).
      is_write e \<longrightarrow>
      (\<exists>tables key. AGS4_to_dataframe env filepath = Some tables \<and> key \<in> set (map fst tables) \<and>
         target e = Some (schema, lower key)))"
proof (intro conjI allI impI ballI)
  let ?R = "ags_to_postgis env db filepath username password target_epsg schema
       source_epsg campaign_id db_name host"
  show rows: "rows_in (db_after ?R) k = rows_in db k @ rows_to k (events ?R)"
    by (rule run_rows)
  show "\<exists>t'. db_after ?R k = Some t' \<and> tcols t' = tcols t \<and>
      trows t' = trows t @ rows_to k (events ?R)" if "db k = Some t" for t
  proof -
    from that run_tcols[where db=db and k=k and t=t and env=env and filepath=filepath
        and username=username and password=password and target_epsg=target_epsg and schema=schema
        and source_epsg=source_epsg and campaign_id=campaign_id and db_name=db_name and host=host]
    obtain t' where t': "db_after ?R k = Some t'" "tcols t' = tcols t"
      by blast
    with rows that have "trows t' = trows t @ rows_to k (events ?R)"
      by (simp add: rows_in_def)
    with t' show ?thesis by simp
  qed
  show "\<exists>tables key. AGS4_to_dataframe env filepath = Some tables \<and> key \<in> set (map fst tables) \<and>
      target e = Some (schema, lower key)" if "e \<in> set (events ?R)" "is_write e" for e
  proof -
    from run_write_origin[OF that] obtain tables key raw cid where
      o: "AGS4_to_dataframe env filepath = Some tables" "(key, raw) \<in> set tables"
      "written_from env schema target_epsg (snd (reprojection env source_epsg target_epsg)) cid key raw e"
      by blast
    from o(2) have "key \<in> set (map fst tables)" by force
    moreover from o(3) have "target e = Some (schema, lower key)"
      by (simp add: written_from_is_write)
    ultimately show ?thesis using o(1) by blast
  qed
qed

theorem C8_witness:
  "rows_in (db_after (ags_to_postgis env0 db7 ''site.ags'' ''u'' ''p'' 27700 ''si'' None None ''d'' ''h''))
     (''si'', ''loca'') =
     trows loca7 @
     [[(''loca_locx'', Num 100), (''loca_locy'', Num 200), (''campaign_id'', IntC 8),
       (''geom'', Geom 100 10200 27700)]] \<and>
   (\<exists>t'. db_after (ags_to_postgis env0 db7 ''site.ags'' ''u'' ''p'' 27700 ''si'' None None ''d'' ''h'')
        (''si'', ''loca'') = Some t' \<and>
      tcols t' = tcols loca7 \<and>
      trows t' = trows loca7 @
        [[(''loca_locx'', Num 100), (''loca_locy'', Num 200), (''campaign_id'', IntC 8),
          (''geom'', Geom 100 10200 27700)]]) \<and>
   (\<exists>tables key. AGS4_to_dataframe env0 ''site.ags'' = Some tables \<and> key \<in> set (map fst tables) \<and>
      target (ToSql ''si'' ''samp'' [[(''samp_id'', Text ''A1''), (''campaign_id'', IntC (8::int))]]
        :: int event) = Some (''si'', lower key))"
proof -
  let ?R = "ags_to_postgis env0 db7 ''site.ags'' ''u'' ''p'' 27700 ''si'' None None ''d'' ''h''"
  have ev: "events ?R =
     [ParseFile ''site.ags'', CreateEngine ''postgresql://u:p@h/d'', HasTable ''si'' ''loca'',
      SelectMax ''si'' ''loca'',
      ToPostgis ''si'' ''loca''
        [[(''loca_locx'', Num 100), (''loca_locy'', Num 200), (''campaign_id'', IntC 8),
          (''geom'', Geom 100 10200 27700)]],
      ToSql ''si'' ''samp'' [[(''samp_id'', Text ''A1''), (''campaign_id'', IntC 8)]]]"
    by (simp add: run_site[OF next_campaign_id_db7])
  have rt: "rows_to (''si'', ''loca'') (events ?R) =
     [[(''loca_locx'', Num 100), (''loca_locy'', Num 200), (''campaign_id'', IntC 8),
       (''geom'', Geom 100 10200 27700)]]"
    by (simp add: ev rows_to_def)
  show ?thesis
    using C8_writes_append[of env0 db7 "''site.ags''" "''u''" "''p''" 27700 "''si''" None None
        "''d''" "''h''" "(''si'', ''loca'')"]
    by (simp add: rt db7_loca rows_in_def) (simp add: ev is_write_def)
qed

text \<open>
  C9. In a run that raises nothing, every table of the document is written. The table
  keyed exactly \<^verbatim>\<open>LOCA\<close> is written by \<^verbatim>\<open>to_postgis\<close> to the table \<^verbatim>\<open>loca\<close>, as the
  frame whose column \<^verbatim>\<open>geom\<close> holds the points of its rows, and these rows are in the
  store afterwards. A table under any other key, \<^verbatim>\<open>loca\<close> or \<^verbatim>\<open>Loca\<close> included, is
  written by \<^verbatim>\<open>to_sql\<close> under its lower-cased key, as the rows of the stamped frame with
  no geometry. In every run, each write comes from a table of the document in one of
  these two ways, and a spatial write comes from the key \<^verbatim>\<open>LOCA\<close> only.
\<close>

theorem C9_only_LOCA_is_spatial:
  "(\<forall>tables cid key raw.
      raised (ags_to_postgis env db filepath username password target_epsg schema
        source_epsg campaign_id db_name host) = None \<and>
      AGS4_to_dataframe env filepath = Some tables \<and>
      snd (next_campaign_id db schema) = Inr cid \<and>
      (key, raw) \<in> set tables \<longrightarrow>
      (\<exists>df0. convert_to_numeric env raw = Some df0 \<and>
         (key = ''LOCA'' \<longrightarrow>
            (\<exists>points gdf.
               geometry env (snd (reprojection env source_epsg target_epsg)) (stamped cid df0) = Inr points \<and>
               spatial_frame (stamped cid df0) points target_epsg = Inr gdf \<and>
               (''geom'', map (\<lambda>p. Geom (fst p) (snd p) target_epsg) points) \<in> set (cols gdf) \<and>
               ToPostgis schema ''loca'' (records gdf) \<in>
                 set (events (ags_to_postgis env db filepath username password target_epsg schema
                   source_epsg campaign_id db_name host)) \<and>
               set (records gdf) \<subseteq>
                 set (rows_in (db_after (ags_to_postgis env db filepath username password target_epsg
                   schema source_epsg campaign_id db_name host)) (schema, ''loca'')))) \<and>
         (key \<noteq> ''LOCA'' \<longrightarrow>
            ToSql schema (lower key) (records (stamped cid df0)) \<in>
              set (events (ags_to_postgis env db filepath username password target_epsg schema
                source_epsg campaign_id db_name host)) \<and>
            set (records (stamped cid df0)) \<subseteq>
              set (rows_in (db_after (ags_to_postgis env db filepath username password target_epsg
                schema source_epsg campaign_id db_name host)) (schema, lower key))))) \<and>
   (\<forall>e \<in> set (events (ags_to_postgis env db filepath username password target_epsg schema
       source_epsg campaign_id db_name host)).
     is_write e \<longrightarrow>
     (\<exists>tables key raw df0 cid.
        AGS4_to_dataframe env filepath = Some tables \<and> (key, raw) \<in> set tables \<and>
        snd (next_campaign_id db schema) = Inr cid \<and>
        convert_to_numeric env raw = Some df0 \<and>
        (key = ''LOCA'' \<longrightarrow>
           (\<exists>points gdf.
              geometry env (snd (reprojection env source_epsg target_epsg)) (stamped cid df0) = Inr points \<and>
              spatial_frame (stamped cid df0) points target_epsg = Inr gdf \<and>
              (''geom'', map (\<lambda>p. Geom (fst p) (snd p) target_epsg) points) \<in> set (cols gdf) \<and>
              e = ToPostgis schema ''loca'' (records gdf))) \<and>
        (key \<noteq> ''LOCA'' \<longrightarrow> e = ToSql schema (lower key) (records (stamped cid df0))) \<and>
        (\<forall>s n rows. e = ToPostgis s n rows \<longrightarrow> key = ''LOCA'')))"
proof (rule conjI)
  let ?R = "ags_to_postgis env db filepath username password target_epsg schema
        source_epsg campaign_id db_name host"
  let ?tr = "snd (reprojection env source_epsg target_epsg)"
  show "\<forall>tables cid key raw.
      raised ?R = None \<and> AGS4_to_dataframe env filepath = Some tables \<and>
      snd (next_campaign_id db schema) = Inr cid \<and> (key, raw) \<in> set tables \<longrightarrow>
      (\<exists>df0. convert_to_numeric env raw = Some df0 \<and>
         (key = ''LOCA'' \<longrightarrow>
            (\<exists>points gdf.
               geometry env ?tr (stamped cid df0) = Inr points \<and>
               spatial_frame (stamped cid df0) points target_epsg = Inr gdf \<and>
               (''geom'', map (\<lambda>p. Geom (fst p) (snd p) target_epsg) points) \<in> set (cols gdf) \<and>
               ToPostgis schema ''loca'' (records gdf) \<in> set (events ?R) \<and>
               set (records gdf) \<subseteq> set (rows_in (db_after ?R) (schema, ''loca'')))) \<and>
         (key \<noteq> ''LOCA'' \<longrightarrow>
            ToSql schema (lower key) (records (stamped cid df0)) \<in> set (events ?R) \<and>
            set (records (stamped cid df0)) \<subseteq> set (rows_in (db_after ?R) (schema, lower key))))"
  proof (intro allI impI)
    fix tables cid key raw
    assume "raised ?R = None \<and> AGS4_to_dataframe env filepath = Some tables \<and>
      snd (next_campaign_id db schema) = Inr cid \<and> (key, raw) \<in> set tables"
    then have h: "raised ?R = None" "AGS4_to_dataframe env filepath = Some tables"
      "snd (next_campaign_id db schema) = Inr cid" "(key, raw) \<in> set tables"
      by simp_all
    from run_all_written[OF h] obtain e where e: "e \<in> set (events ?R)"
      and w: "written_from env schema target_epsg ?tr cid key raw e"
      by blast
    from w obtain df0 where df0: "convert_to_numeric env raw = Some df0"
      and body: "if key = ''LOCA''
        then \<exists>points gdf. geometry env ?tr (stamped cid df0) = Inr points \<and>
               spatial_frame (stamped cid df0) points target_epsg = Inr gdf \<and>
               e = ToPostgis schema (lower key) (records gdf)
        else e = ToSql schema (lower key) (records (stamped cid df0))"
      unfolding written_from_def by blast
    have stored: "set (written_rows e) \<subseteq> set (rows_in (db_after ?R) (schema, lower key))"
      using rows_to_mem[OF e, of "(schema, lower key)"] written_from_is_write[OF w]
      by (auto simp: run_rows)
    have 1: "key = ''LOCA'' \<longrightarrow>
        (\<exists>points gdf.
           geometry env ?tr (stamped cid df0) = Inr points \<and>
           spatial_frame (stamped cid df0) points target_epsg = Inr gdf \<and>
           (''geom'', map (\<lambda>p. Geom (fst p) (snd p) target_epsg) points) \<in> set (cols gdf) \<and>
           ToPostgis schema ''loca'' (records gdf) \<in> set (events ?R) \<and>
           set (records gdf) \<subseteq> set (rows_in (db_after ?R) (schema, ''loca'')))"
    proof
      assume k: "key = ''LOCA''"
      with body obtain points gdf where
        p: "geometry env ?tr (stamped cid df0) = Inr points"
        and g: "spatial_frame (stamped cid df0) points target_epsg = Inr gdf"
        and eq: "e = ToPostgis schema (lower key) (records gdf)"
        by auto
      have c: "(''geom'', map (\<lambda>p. Geom (fst p) (snd p) target_epsg) points) \<in> set (cols gdf)"
        by (rule spatial_frame_has_geom[OF g])
      have m: "ToPostgis schema ''loca'' (records gdf) \<in> set (events ?R)"
        using e by (simp add: eq k lower_keys)
      have s: "set (records gdf) \<subseteq> set (rows_in (db_after ?R) (schema, ''loca''))"
        using stored by (simp add: eq k lower_keys)
      show "\<exists>points gdf.
           geometry env ?tr (stamped cid df0) = Inr points \<and>
           spatial_frame (stamped cid df0) points target_epsg = Inr gdf \<and>
           (''geom'', map (\<lambda>p. Geom (fst p) (snd p) target_epsg) points) \<in> set (cols gdf) \<and>
           ToPostgis schema ''loca'' (records gdf) \<in> set (events ?R) \<and>
           set (records gdf) \<subseteq> set (rows_in (db_after ?R) (schema, ''loca''))"
        by (intro exI[of _ points] exI[of _ gdf] conjI) (rule p g c m s)+
    qed
    have 2: "key \<noteq> ''LOCA'' \<longrightarrow>
        ToSql schema (lower key) (records (stamped cid df0)) \<in> set (events ?R) \<and>
        set (records (stamped cid df0)) \<subseteq> set (rows_in (db_after ?R) (schema, lower key))"
    proof
      assume "key \<noteq> ''LOCA''"
      with body have eq: "e = ToSql schema (lower key) (records (stamped cid df0))"
        by simp
      show "ToSql schema (lower key) (records (stamped cid df0)) \<in> set (events ?R) \<and>
        set (records (stamped cid df0)) \<subseteq> set (rows_in (db_after ?R) (schema, lower key))"
        using e stored by (simp add: eq)
    qed
    show "\<exists>df0. convert_to_numeric env raw = Some df0 \<and>
         (key = ''LOCA'' \<longrightarrow>
            (\<exists>points gdf.
               geometry env ?tr (stamped cid df0) = Inr points \<and>
               spatial_frame (stamped cid df0) points target_epsg = Inr gdf \<and>
               (''geom'', map (\<lambda>p. Geom (fst p) (snd p) target_epsg) points) \<in> set (cols gdf) \<and>
               ToPostgis schema ''loca'' (records gdf) \<in> set (events ?R) \<and>
               set (records gdf) \<subseteq> set (rows_in (db_after ?R) (schema, ''loca'')))) \<and>
         (key \<noteq> ''LOCA'' \<longrightarrow>
            ToSql schema (lower key) (records (stamped cid df0)) \<in> set (events ?R) \<and>
            set (records (stamped cid df0)) \<subseteq> set (rows_in (db_after ?R) (schema, lower key)))"
      by (intro exI[of _ df0] conjI) (rule df0 1 2)+
  qed
next
  let ?R = "ags_to_postgis env db filepath username password target_epsg schema
        source_epsg campaign_id db_name host"
  let ?tr = "snd (reprojection env source_epsg target_epsg)"
  show "\<forall>e \<in> set (events ?R).
     is_write e \<longrightarrow>
     (\<exists>tables key raw df0 cid.
        AGS4_to_dataframe env filepath = Some tables \<and> (key, raw) \<in> set tables \<and>
        snd (next_campaign_id db schema) = Inr cid \<and>
        convert_to_numeric env raw = Some df0 \<and>
        (key = ''LOCA'' \<longrightarrow>
           (\<exists>points gdf.
              geometry env ?tr (stamped cid df0) = Inr points \<and>
              spatial_frame (stamped cid df0) points target_epsg = Inr gdf \<and>
              (''geom'', map (\<lambda>p. Geom (fst p) (snd p) target_epsg) points) \<in> set (cols gdf) \<and>
              e = ToPostgis schema ''loca'' (records gdf))) \<and>
        (key \<noteq> ''LOCA'' \<longrightarrow> e = ToSql schema (lower key) (records (stamped cid df0))) \<and>
        (\<forall>s n rows. e = ToPostgis s n rows \<longrightarrow> key = ''LOCA''))"
  proof (intro ballI impI)
    fix e
    assume "e \<in> set (events ?R)" and "is_write e"
    from run_write_origin[OF this] obtain tables key raw cid where
      o: "AGS4_to_dataframe env filepath = Some tables" "(key, raw) \<in> set tables"
        "snd (next_campaign_id db schema) = Inr cid"
      and w: "written_from env schema target_epsg ?tr cid key raw e"
      by blast
    from w obtain df0 where df0: "convert_to_numeric env raw = Some df0"
      and body: "if key = ''LOCA''
        then \<exists>points gdf. geometry env ?tr (stamped cid df0) = Inr points \<and>
               spatial_frame (stamped cid df0) points target_epsg = Inr gdf \<and>
               e = ToPostgis schema (lower key) (records gdf)
        else e = ToSql schema (lower key) (records (stamped cid df0))"
      unfolding written_from_def by blast
    have 1: "key = ''LOCA'' \<longrightarrow>
        (\<exists>points gdf.
           geometry env ?tr (stamped cid df0) = Inr points \<and>
           spatial_frame (stamped cid df0) points target_epsg = Inr gdf \<and>
           (''geom'', map (\<lambda>p. Geom (fst p) (snd p) target_epsg) points) \<in> set (cols gdf) \<and>
           e = ToPostgis schema ''loca'' (records gdf))"
    proof
      assume k: "key = ''LOCA''"
      with body obtain points gdf where
        p: "geometry env ?tr (stamped cid df0) = Inr points"
        and g: "spatial_frame (stamped cid df0) points target_epsg = Inr gdf"
        and eq: "e = ToPostgis schema (lower key) (records gdf)"
        by auto
      have c: "(''geom'', map (\<lambda>p. Geom (fst p) (snd p) target_epsg) points) \<in> set (cols gdf)"
        by (rule spatial_frame_has_geom[OF g])
      have eq': "e = ToPostgis schema ''loca'' (records gdf)"
        by (simp add: eq k lower_keys)
      show "\<exists>points gdf.
           geometry env ?tr (stamped cid df0) = Inr points \<and>
           spatial_frame (stamped cid df0) points target_epsg = Inr gdf \<and>
           (''geom'', map (\<lambda>p. Geom (fst p) (snd p) target_epsg) points) \<in> set (cols gdf) \<and>
           e = ToPostgis schema ''loca'' (records gdf)"
        by (intro exI[of _ points] exI[of _ gdf] conjI) (rule p g c eq')+
    qed
    have 2: "key \<noteq> ''LOCA'' \<longrightarrow> e = ToSql schema (lower key) (records (stamped cid df0))"
      using body by simp
    have 3: "\<forall>s n rows. e = ToPostgis s n rows \<longrightarrow> key = ''LOCA''"
    proof (intro allI impI)
      fix s n rows
      assume "e = ToPostgis s n rows"
      with 2 show "key = ''LOCA''" by (cases "key = ''LOCA''") simp_all
    qed
    show "\<exists>tables key raw df0 cid.
        AGS4_to_dataframe env filepath = Some tables \<and> (key, raw) \<in> set tables \<and>
        snd (next_campaign_id db schema) = Inr cid \<and>
        convert_to_numeric env raw = Some df0 \<and>
        (key = ''LOCA'' \<longrightarrow>
           (\<exists>points gdf.
              geometry env ?tr (stamped cid df0) = Inr points \<and>
              spatial_frame (stamped cid df0) points target_epsg = Inr gdf \<and>
              (''geom'', map (\<lambda>p. Geom (fst p) (snd p) target_epsg) points) \<in> set (cols gdf) \<and>
              e = ToPostgis schema ''loca'' (records gdf))) \<and>
        (key \<noteq> ''LOCA'' \<longrightarrow> e = ToSql schema (lower key) (records (stamped cid df0))) \<and>
        (\<forall>s n rows. e = ToPostgis s n rows \<longrightarrow> key = ''LOCA'')"
      by (intro exI[of _ tables] exI[of _ key] exI[of _ raw] exI[of _ df0] exI[of _ cid] conjI)
        (rule o df0 1 2 3)+
  qed
qed


theorem C9_witness:
  "raised (ags_to_postgis env0 Map.empty ''site.ags'' ''u'' ''p'' 27700 ''si'' None None ''d'' ''h'') = None \<and>
   (ToPostgis ''si'' ''loca''
      [[(''loca_locx'', Num 100), (''loca_locy'', Num 200), (''campaign_id'', IntC 1),
        (''geom'', Geom 100 10200 27700)]] :: int event) \<in>
     set (events (ags_to_postgis env0 Map.empty ''site.ags'' ''u'' ''p'' 27700 ''si'' None None ''d'' ''h'')) \<and>
   [(''loca_locx'', Num 100), (''loca_locy'', Num 200), (''campaign_id'', IntC 1),
    (''geom'', Geom 100 10200 27700)] \<in>
     set (rows_in (db_after
       (ags_to_postgis env0 Map.empty ''site.ags'' ''u'' ''p'' 27700 ''si'' None None ''d'' ''h''))
       (''si'', ''loca'')) \<and>
   (ToSql ''si'' ''samp'' [[(''samp_id'', Text ''A1''), (''campaign_id'', IntC 1)]] :: int event) \<in>
     set (events (ags_to_postgis env0 Map.empty ''site.ags'' ''u'' ''p'' 27700 ''si'' None None ''d'' ''h'')) \<and>
   raised (ags_to_postgis env0 Map.empty ''mixed.ags'' ''u'' ''p'' 27700 ''si'' None None ''d'' ''h'') = None \<and>
   (ToSql ''si'' ''loca''
     [[(''loca_locx'', Num 100), (''loca_locy'', Num 200), (''campaign_id'', IntC 1)]] :: int event) \<in>
     set (events (ags_to_postgis env0 Map.empty ''mixed.ags'' ''u'' ''p'' 27700 ''si'' None None ''d'' ''h'')) \<and>
   (\<exists>tables key raw df0 cid.
      AGS4_to_dataframe env0 ''mixed.ags'' = Some tables \<and> (key, raw) \<in> set tables \<and>
      snd (next_campaign_id (Map.empty :: int store) ''si'') = Inr cid \<and>
      convert_to_numeric env0 raw = Some df0 \<and>
      (key = ''LOCA'' \<longrightarrow>
         (\<exists>points gdf.
            geometry env0 (snd (reprojection env0 None 27700)) (stamped cid df0) = Inr points \<and>
            spatial_frame (stamped cid df0) points 27700 = Inr gdf \<and>
            (''geom'', map (\<lambda>p. Geom (fst p) (snd p) 27700) points) \<in> set (cols gdf) \<and>
            (ToSql ''si'' ''loca''
              [[(''loca_locx'', Num 100), (''loca_locy'', Num 200), (''campaign_id'', IntC 1)]] :: int event) =
            ToPostgis ''si'' ''loca'' (records gdf))) \<and>
      (key \<noteq> ''LOCA'' \<longrightarrow>
         (ToSql ''si'' ''loca''
           [[(''loca_locx'', Num 100), (''loca_locy'', Num 200), (''campaign_id'', IntC 1)]] :: int event) =
         ToSql ''si'' (lower key) (records (stamped cid df0))) \<and>
      (\<forall>s n rows. (ToSql ''si'' ''loca''
           [[(''loca_locx'', Num 100), (''loca_locy'', Num 200), (''campaign_id'', IntC 1)]] :: int event) =
         ToPostgis s n rows \<longrightarrow> key = ''LOCA''))"
proof -
  let ?Rs = "ags_to_postgis env0 Map.empty ''site.ags'' ''u'' ''p'' 27700 ''si'' None None ''d'' ''h''"
  let ?Rm = "ags_to_postgis env0 Map.empty ''mixed.ags'' ''u'' ''p'' 27700 ''si'' None None ''d'' ''h''"
  let ?e = "ToSql ''si'' ''loca''
     [[(''loca_locx'', Num 100), (''loca_locy'', Num 200), (''campaign_id'', IntC (1::int))]]
     :: int event"
  note Fs = C9_only_LOCA_is_spatial[of env0 Map.empty "''site.ags''" "''u''" "''p''" 27700 "''si''"
      None None "''d''" "''h''", THEN conjunct1, THEN spec, THEN spec, THEN spec, THEN spec, THEN mp]
  note Fm = C9_only_LOCA_is_spatial[of env0 Map.empty "''mixed.ags''" "''u''" "''p''" 27700 "''si''"
      None None "''d''" "''h''", THEN conjunct1, THEN spec, THEN spec, THEN spec, THEN spec, THEN mp]
  have tr: "snd (reprojection env0 None 27700) = None"
    by (simp add: reprojection_def)
  have h1: "raised ?Rs = None \<and> AGS4_to_dataframe env0 ''site.ags'' = Some doc0 \<and>
      snd (next_campaign_id (Map.empty :: int store) ''si'') = Inr 1 \<and> (''LOCA'', loca0) \<in> set doc0"
    by (simp add: run_site_raised env0_sel next_campaign_id_empty doc0_def)
  have h2: "raised ?Rs = None \<and> AGS4_to_dataframe env0 ''site.ags'' = Some doc0 \<and>
      snd (next_campaign_id (Map.empty :: int store) ''si'') = Inr 1 \<and> (''SAMP'', samp0) \<in> set doc0"
    by (simp add: run_site_raised env0_sel next_campaign_id_empty doc0_def)
  have h3: "raised ?Rm = None \<and> AGS4_to_dataframe env0 ''mixed.ags'' = Some doc1 \<and>
      snd (next_campaign_id (Map.empty :: int store) ''si'') = Inr 1 \<and> (''Loca'', loca0) \<in> set doc1"
    by (simp add: run_mixed_raised env0_sel next_campaign_id_empty doc1_def)
  from Fs[OF h1] obtain df0 points gdf where
    "convert_to_numeric env0 loca0 = Some df0"
    "geometry env0 (snd (reprojection env0 None 27700)) (stamped 1 df0) = Inr points"
    "spatial_frame (stamped 1 df0) points 27700 = Inr gdf"
    and m: "ToPostgis ''si'' ''loca'' (records gdf) \<in> set (events ?Rs)"
      "set (records gdf) \<subseteq> set (rows_in (db_after ?Rs) (''si'', ''loca''))"
    by auto
  then have "records gdf =
      [[(''loca_locx'', Num 100), (''loca_locy'', Num 200), (''campaign_id'', IntC 1),
        (''geom'', Geom 100 10200 27700)]]"
    by (auto simp: env0_sel tr geometry_loca0 reprojected_def spatial_frame_loca0 records_def)
  with m have a: "(ToPostgis ''si'' ''loca''
      [[(''loca_locx'', Num 100), (''loca_locy'', Num 200), (''campaign_id'', IntC 1),
        (''geom'', Geom 100 10200 27700)]] :: int event) \<in> set (events ?Rs)"
    "[(''loca_locx'', Num 100), (''loca_locy'', Num 200), (''campaign_id'', IntC 1),
      (''geom'', Geom 100 10200 27700)] \<in> set (rows_in (db_after ?Rs) (''si'', ''loca''))"
    by simp_all
  from Fs[OF h2] have b: "(ToSql ''si'' ''samp'' [[(''samp_id'', Text ''A1''), (''campaign_id'', IntC 1)]]
      :: int event) \<in> set (events ?Rs)"
    by (auto simp: env0_sel lower_keys records_samp0)
  from Fm[OF h3] have c: "?e \<in> set (events ?Rm)"
    by (auto simp: env0_sel lower_keys records_loca0)
  have w: "is_write ?e"
    by (simp add: is_write_def)
  note d = C9_only_LOCA_is_spatial[of env0 Map.empty "''mixed.ags''" "''u''" "''p''"
          27700 "''si''" None None "''d''" "''h''", THEN conjunct2, THEN bspec, OF c, THEN mp, OF w]
  show ?thesis
    by (intro conjI) (rule run_site_raised run_mixed_raised a b c d)+
qed

text \<open>
  C10. When a table has a column whose lower-cased label is \<^verbatim>\<open>campaign_id\<close>, the stamp
  adds no column: the labels of the stamped frame are the lower-cased labels of the table,
  which are the labels of the rows of an attribute table. In every written row, of a
  spatial layer or of an attribute table, every cell labelled \<^verbatim>\<open>campaign_id\<close> holds the
  campaign id of the import, whatever the table held there.
\<close>

theorem C10_existing_campaign_id_overwritten:
  assumes "convert_to_numeric env raw = Some df0"
    and "''campaign_id'' \<in> set (map lower (labels df0))"
  shows "labels (stamped campaign_id df0) = map lower (labels df0) \<and>
         (\<forall>e \<in> set (events (load_table env db schema target_epsg crs_transformer campaign_id key raw)).
            \<forall>r \<in> set (written_rows e).
              (key \<noteq> ''LOCA'' \<longrightarrow> map fst r = map lower (labels df0)) \<and>
              (\<forall>c \<in> set r. fst c = ''campaign_id'' \<longrightarrow> snd c = IntC campaign_id))"
proof (rule conjI)
  show "labels (stamped campaign_id df0) = map lower (labels df0)"
    by (rule labels_stamped_existing[OF assms(2)])
next
  show "\<forall>e \<in> set (events (load_table env db schema target_epsg crs_transformer campaign_id key raw)).
      \<forall>r \<in> set (written_rows e).
        (key \<noteq> ''LOCA'' \<longrightarrow> map fst r = map lower (labels df0)) \<and>
        (\<forall>c \<in> set r. fst c = ''campaign_id'' \<longrightarrow> snd c = IntC campaign_id)"
  proof (rule ballI, rule ballI)
  fix e r
  assume e: "e \<in> set (events (load_table env db schema target_epsg crs_transformer campaign_id key raw))"
    and r: "r \<in> set (written_rows e)"
  show "(key \<noteq> ''LOCA'' \<longrightarrow> map fst r = map lower (labels df0)) \<and>
      (\<forall>c \<in> set r. fst c = ''campaign_id'' \<longrightarrow> snd c = IntC campaign_id)"
  proof (cases rule: load_table_cases[of env db schema target_epsg crs_transformer campaign_id key raw])
    case (failed e')
    with e show ?thesis by simp
  next
    case (spatial df0' points gdf db')
    with assms(1) have same: "df0' = df0" by simp
    from e r spatial(6) have g: "r \<in> set (records gdf)"
      by simp
    from carries_spatial_records[OF spatial(4)[unfolded same] g] show ?thesis
      by (simp add: spatial(1) carries_def)
  next
    case (plain df0' db')
    with assms(1) have same: "df0' = df0" by simp
    from e r plain(4) have g: "r \<in> set (records (stamped campaign_id df0))"
      by (simp add: same)
    from records_labels[OF g] carries_records[OF g] show ?thesis
      by (simp add: labels_stamped_existing[OF assms(2)] carries_def)
  qed
  qed
qed

theorem C10_witness:
  "(''Campaign_ID'', [Text ''old'']) \<in> set (cols samp0) \<and>
   labels (stamped 5 samp0) = map lower (labels samp0) \<and>
   events (load_table env0 Map.empty ''si'' 27700 None 5 ''SAMP'' samp0) =
     [ToSql ''si'' ''samp'' [[(''samp_id'', Text ''A1''), (''campaign_id'', IntC 5)]]] \<and>
   map fst [(''samp_id'', Text ''A1''), (''campaign_id'', IntC 5) :: string \<times> int cell] =
     map lower (labels samp0) \<and>
   filter (\<lambda>c. fst c = ''campaign_id'')
     [(''samp_id'', Text ''A1''), (''campaign_id'', IntC 5) :: string \<times> int cell] =
     [(''campaign_id'', IntC 5)]"
proof -
  have h: "convert_to_numeric env0 samp0 = Some samp0"
    "''campaign_id'' \<in> set (map lower (labels samp0))"
    by (simp_all add: env0_sel samp0_def labels_def lower_def lower_char_def)
  have "labels (stamped 5 samp0) = map lower (labels samp0) \<and>
    (\<forall>r \<in> set [[(''samp_id'', Text ''A1''), (''campaign_id'', IntC 5) :: string \<times> int cell]].
      (''SAMP'' \<noteq> ''LOCA'' \<longrightarrow> map fst r = map lower (labels samp0)) \<and>
      (\<forall>c \<in> set r. fst c = ''campaign_id'' \<longrightarrow> snd c = IntC 5))"
    using C10_existing_campaign_id_overwritten[OF h, of 5 Map.empty "''si''" 27700 None "''SAMP''"]
    by (simp add: load_table_samp0)
  then show ?thesis
    by (simp add: load_table_samp0) (simp add: samp0_def)
qed

end
